theory Spec2Isabelle
  imports Main
begin

section \<open>The translation unit seen by the compatibility header\<close>

text \<open>
  The program is the cross-build header \<^verbatim>\<open>tools/build/cross-build/include/common/sys/types.h\<close>.
  Its only operation is textual inclusion, so the embedding is a function from the state of
  the translation unit at the \<^verbatim>\<open>#include\<close> line to the state after it, or to the
  diagnostic that stops the compilation.

  The state holds what the header reads and writes: the macros that are defined, the
  typedef names with the type each one stands for, the struct tags with their
  completeness, the files marked by \<^verbatim>\<open>#pragma once\<close>, and the declarations emitted
  so far, in textual order. It also holds the names that would clash with the header's
  declarations: the ordinary identifiers declared as something other than a typedef name
  (objects, functions, enumeration constants), which share the name space of the typedef
  names, and the tags of unions and enumerations, which share the name space of the struct
  tags.
\<close>

datatype cbase = CChar | CShort | CUShort | CInt | CUInt | CLong | CULong | CLongLong | CULongLong

datatype ctype = Base cbase | Named string | StructT string

datatype item =
    Define string
  | Typedef ctype string
  | StructFwd string
  | StructDef string
  | Object string
  | OtherTag string

datatype completeness = Incomplete | Complete

text \<open>
  The results other than success. All but one are diagnostics of the compiler.
  \<open>MacroRewrites t\<close> is the exception: it says that the identifier \<open>t\<close> of one of the
  header's declaration lines is defined as a macro, so that the compiler sees the replaced
  text instead of the line as written. What becomes of the replaced text depends on the
  replacement list, which this development does not follow; it stops there, and says
  nothing of such an inclusion beyond that.
\<close>

datatype error =
    FileNotFound string
  | ExtensionRejected string
  | UnknownType string
  | Redefinition string
  | StructRedefinition string
  | TagMismatch string
  | MacroRewrites string

record tu_state =
  macros :: "string set"
  typedefs :: "string \<rightharpoonup> ctype"
  structs :: "string \<rightharpoonup> completeness"
  objects :: "string set"
  other_tags :: "string set"
  once :: "string set"
  emitted :: "item list"

text \<open>
  The two headers that the file pulls in belong to the host, not to this repository. Each
  is a parameter: \<open>None\<close> when the name does not resolve on the include path, otherwise
  the macro definitions and declarations that the header contributes to the translation
  unit. Two more parameters describe the compiler: whether it accepts a typedef that
  repeats an earlier one with the same type (C11 and the GNU dialects do, strict C99 does
  not), and whether it accepts the directive \<^verbatim>\<open>#include_next\<close>, which is an extension (a
  compiler told to reject extensions stops at the directive itself).
\<close>

record platform =
  sys_types_h :: "item list option"
  stdint_h :: "item list option"
  typedef_redecl_ok :: bool
  include_next_ok :: bool

section \<open>Directives and declarations\<close>

type_synonym directive = "tu_state \<Rightarrow> error + tu_state"

definition resolve :: "tu_state \<Rightarrow> ctype \<Rightarrow> error + ctype" where
  "resolve s t =
     (case t of
        Named n \<Rightarrow> (case typedefs s n of None \<Rightarrow> Inl (UnknownType n) | Some c \<Rightarrow> Inr c)
      | Base b \<Rightarrow> Inr (Base b)
      | StructT g \<Rightarrow> if g \<in> other_tags s then Inl (TagMismatch g) else Inr (StructT g))"

definition typedef_decl :: "bool \<Rightarrow> ctype \<Rightarrow> string \<Rightarrow> directive" where
  "typedef_decl ok t n s =
     (case resolve s t of
        Inl e \<Rightarrow> Inl e
      | Inr c \<Rightarrow>
          if n \<in> objects s then Inl (Redefinition n)
          else
          (case typedefs s n of
             None \<Rightarrow> Inr (s\<lparr>typedefs := (typedefs s)(n \<mapsto> c), emitted := emitted s @ [Typedef t n]\<rparr>)
           | Some c' \<Rightarrow>
               if ok \<and> c' = c then Inr (s\<lparr>emitted := emitted s @ [Typedef t n]\<rparr>)
               else Inl (Redefinition n)))"

definition struct_fwd :: "string \<Rightarrow> directive" where
  "struct_fwd g s =
     (if g \<in> other_tags s then Inl (TagMismatch g)
      else
      Inr (s\<lparr>structs := (case structs s g of None \<Rightarrow> (structs s)(g \<mapsto> Incomplete) | Some k \<Rightarrow> structs s),
           emitted := emitted s @ [StructFwd g]\<rparr>))"

definition struct_def :: "string \<Rightarrow> directive" where
  "struct_def g s =
     (if g \<in> other_tags s then Inl (TagMismatch g)
      else if structs s g = Some Complete then Inl (StructRedefinition g)
      else Inr (s\<lparr>structs := (structs s)(g \<mapsto> Complete), emitted := emitted s @ [StructDef g]\<rparr>))"

definition object_decl :: "string \<Rightarrow> directive" where
  "object_decl n s =
     (if typedefs s n \<noteq> None then Inl (Redefinition n)
      else Inr (s\<lparr>objects := insert n (objects s), emitted := emitted s @ [Object n]\<rparr>))"

definition other_tag_decl :: "string \<Rightarrow> directive" where
  "other_tag_decl g s =
     (if structs s g \<noteq> None then Inl (TagMismatch g)
      else Inr (s\<lparr>other_tags := insert g (other_tags s), emitted := emitted s @ [OtherTag g]\<rparr>))"

definition define_macro :: "string \<Rightarrow> directive" where
  "define_macro m s = Inr (s\<lparr>macros := insert m (macros s)\<rparr>)"

definition undef_macro :: "string \<Rightarrow> directive" where
  "undef_macro m s = Inr (s\<lparr>macros := macros s - {m}\<rparr>)"

fun seq :: "directive list \<Rightarrow> directive" where
  "seq [] s = Inr s"
| "seq (d # ds) s = (case d s of Inl e \<Rightarrow> Inl e | Inr s' \<Rightarrow> seq ds s')"

definition ifdef :: "string \<Rightarrow> directive list \<Rightarrow> directive" where
  "ifdef m body s = (if m \<in> macros s then seq body s else Inr s)"

definition ifndef :: "string \<Rightarrow> directive list \<Rightarrow> directive" where
  "ifndef m body s = (if m \<notin> macros s then seq body s else Inr s)"

definition pragma_once :: "string \<Rightarrow> directive list \<Rightarrow> directive" where
  "pragma_once f body s =
     (if f \<in> once s then Inr s else seq body (s\<lparr>once := insert f (once s)\<rparr>))"

fun exec_item :: "bool \<Rightarrow> item \<Rightarrow> directive" where
  "exec_item ok (Define m) = define_macro m"
| "exec_item ok (Typedef t n) = typedef_decl ok t n"
| "exec_item ok (StructFwd g) = struct_fwd g"
| "exec_item ok (StructDef g) = struct_def g"
| "exec_item ok (Object n) = object_decl n"
| "exec_item ok (OtherTag g) = other_tag_decl g"

definition include_file :: "bool \<Rightarrow> string \<Rightarrow> item list option \<Rightarrow> directive" where
  "include_file ok name content s =
     (case content of
        None \<Rightarrow> Inl (FileNotFound name)
      | Some its \<Rightarrow> seq (map (exec_item ok) its) s)"

definition include_next :: "bool \<Rightarrow> bool \<Rightarrow> string \<Rightarrow> item list option \<Rightarrow> directive" where
  "include_next ext ok name content s =
     (if \<not> ext then Inl (ExtensionRejected ''#include_next'')
      else include_file ok name content s)"

text \<open>
  A declaration line of the header: the identifiers and keywords of the line as written,
  and the declaration that the line makes when none of them is a macro. Macro replacement
  comes before the declaration is read, so the line as written is declared only where no
  macro rewrites it.
\<close>

definition source_line :: "string list \<Rightarrow> directive \<Rightarrow> directive" where
  "source_line toks d s =
     (case List.find (\<lambda>t. t \<in> macros s) toks of
        None \<Rightarrow> d s
      | Some t \<Rightarrow> Inl (MacroRewrites t))"

section \<open>The header\<close>

text \<open>
  The source, directive by directive, and its embedding as a sequence of directives:
  \<^verbatim>\<open>
  #pragma once
  #include_next <sys/types.h>
  #include <stdint.h>
  #ifdef __linux__
  typedef uintptr_t __uintptr_t;
  #endif
  typedef int __nl_item;
  typedef size_t u_register_t;
  #ifndef _CAP_IOCTL_T_DECLARED
  #define _CAP_IOCTL_T_DECLARED
  typedef unsigned long cap_ioctl_t;
  #endif
  #ifndef _CAP_RIGHTS_T_DECLARED
  #define _CAP_RIGHTS_T_DECLARED
  struct cap_rights;
  typedef struct cap_rights cap_rights_t;
  #endif
  \<close>
\<close>

definition this_file :: string where
  "this_file = ''cross-build/include/common/sys/types.h''"

definition line_uintptr :: "bool \<Rightarrow> directive" where
  "line_uintptr ok =
     source_line [''typedef'', ''uintptr_t'', ''__uintptr_t'']
       (typedef_decl ok (Named ''uintptr_t'') ''__uintptr_t'')"

definition line_nl_item :: "bool \<Rightarrow> directive" where
  "line_nl_item ok =
     source_line [''typedef'', ''int'', ''__nl_item'']
       (typedef_decl ok (Base CInt) ''__nl_item'')"

definition line_u_register :: "bool \<Rightarrow> directive" where
  "line_u_register ok =
     source_line [''typedef'', ''size_t'', ''u_register_t'']
       (typedef_decl ok (Named ''size_t'') ''u_register_t'')"

definition line_cap_ioctl :: "bool \<Rightarrow> directive" where
  "line_cap_ioctl ok =
     source_line [''typedef'', ''unsigned'', ''long'', ''cap_ioctl_t'']
       (typedef_decl ok (Base CULong) ''cap_ioctl_t'')"

definition line_struct_cap_rights :: directive where
  "line_struct_cap_rights =
     source_line [''struct'', ''cap_rights''] (struct_fwd ''cap_rights'')"

definition line_cap_rights :: "bool \<Rightarrow> directive" where
  "line_cap_rights ok =
     source_line [''typedef'', ''struct'', ''cap_rights'', ''cap_rights_t'']
       (typedef_decl ok (StructT ''cap_rights'') ''cap_rights_t'')"

definition types_h :: "platform \<Rightarrow> directive" where
  "types_h p =
     pragma_once this_file
       [ include_next (include_next_ok p) (typedef_redecl_ok p) ''sys/types.h'' (sys_types_h p),
         include_file (typedef_redecl_ok p) ''stdint.h'' (stdint_h p),
         ifdef ''__linux__'' [ line_uintptr (typedef_redecl_ok p) ],
         line_nl_item (typedef_redecl_ok p),
         line_u_register (typedef_redecl_ok p),
         ifndef ''_CAP_IOCTL_T_DECLARED''
           [ define_macro ''_CAP_IOCTL_T_DECLARED'',
             line_cap_ioctl (typedef_redecl_ok p) ],
         ifndef ''_CAP_RIGHTS_T_DECLARED''
           [ define_macro ''_CAP_RIGHTS_T_DECLARED'',
             line_struct_cap_rights,
             line_cap_rights (typedef_redecl_ok p) ] ]"

section \<open>Observations on header contents and on the result\<close>

text \<open>
  The statements below speak of what a platform header contributes (the macros it defines,
  the declarations it emits, the typedef names and struct tags it introduces), of the macros
  that are defined when the header reaches its own conditionals, and of the declarations
  that the header itself adds behind the two platform headers.
\<close>

definition contents :: "item list option \<Rightarrow> item list" where
  "contents h = (case h of None \<Rightarrow> [] | Some its \<Rightarrow> its)"

fun is_decl :: "item \<Rightarrow> bool" where
  "is_decl (Define m) = False"
| "is_decl (Typedef t n) = True"
| "is_decl (StructFwd g) = True"
| "is_decl (StructDef g) = True"
| "is_decl (Object n) = True"
| "is_decl (OtherTag g) = True"

definition decls_of :: "item list \<Rightarrow> item list" where
  "decls_of its = filter is_decl its"

fun defines_of :: "item list \<Rightarrow> string set" where
  "defines_of [] = {}"
| "defines_of (Define m # its) = insert m (defines_of its)"
| "defines_of (i # its) = defines_of its"

fun typedef_names :: "item list \<Rightarrow> string set" where
  "typedef_names [] = {}"
| "typedef_names (Typedef t n # its) = insert n (typedef_names its)"
| "typedef_names (i # its) = typedef_names its"

fun struct_tags :: "item list \<Rightarrow> string set" where
  "struct_tags [] = {}"
| "struct_tags (StructFwd g # its) = insert g (struct_tags its)"
| "struct_tags (StructDef g # its) = insert g (struct_tags its)"
| "struct_tags (i # its) = struct_tags its"

fun object_names :: "item list \<Rightarrow> string set" where
  "object_names [] = {}"
| "object_names (Object n # its) = insert n (object_names its)"
| "object_names (i # its) = object_names its"

fun other_tag_names :: "item list \<Rightarrow> string set" where
  "other_tag_names [] = {}"
| "other_tag_names (OtherTag g # its) = insert g (other_tag_names its)"
| "other_tag_names (i # its) = other_tag_names its"

text \<open>
  The declarations the source text holds below its two includes, listed in file order,
  as a function of the macros that are defined when the conditionals are evaluated.
\<close>

definition patch_decls :: "string set \<Rightarrow> item list" where
  "patch_decls M =
     (if ''__linux__'' \<in> M then [Typedef (Named ''uintptr_t'') ''__uintptr_t''] else []) @
     [Typedef (Base CInt) ''__nl_item'', Typedef (Named ''size_t'') ''u_register_t''] @
     (if ''_CAP_IOCTL_T_DECLARED'' \<notin> M then [Typedef (Base CULong) ''cap_ioctl_t''] else []) @
     (if ''_CAP_RIGHTS_T_DECLARED'' \<notin> M
      then [StructFwd ''cap_rights'', Typedef (StructT ''cap_rights'') ''cap_rights_t''] else [])"

text \<open>
  The macros defined once the two platform headers have been read, and the part of the
  output that lies behind the output of the two platform headers.
\<close>

definition mid_macros :: "platform \<Rightarrow> tu_state \<Rightarrow> string set" where
  "mid_macros p s =
     macros s \<union> defines_of (contents (sys_types_h p)) \<union> defines_of (contents (stdint_h p))"

definition own_decls :: "platform \<Rightarrow> tu_state \<Rightarrow> tu_state \<Rightarrow> item list" where
  "own_decls p s s' =
     drop (length (emitted s) + length (decls_of (contents (sys_types_h p)))
             + length (decls_of (contents (stdint_h p))))
          (emitted s')"

fun declares :: "string \<Rightarrow> item \<Rightarrow> bool" where
  "declares n (Typedef t m) = (m = n)"
| "declares n (Define m) = False"
| "declares n (StructFwd g) = False"
| "declares n (StructDef g) = False"
| "declares n (Object m) = False"
| "declares n (OtherTag g) = False"

definition count_decl :: "string \<Rightarrow> item list \<Rightarrow> nat" where
  "count_decl n its = length (filter (declares n) its)"

definition five_names :: "string list" where
  "five_names = [''__uintptr_t'', ''__nl_item'', ''u_register_t'', ''cap_ioctl_t'', ''cap_rights_t'']"

text \<open>The identifiers and keywords that the header's declaration lines are written with.\<close>

definition header_tokens :: "string list" where
  "header_tokens =
     [''typedef'', ''uintptr_t'', ''__uintptr_t'', ''int'', ''__nl_item'', ''size_t'',
      ''u_register_t'', ''unsigned'', ''long'', ''cap_ioctl_t'', ''struct'', ''cap_rights'',
      ''cap_rights_t'']"

text \<open>
  The identifiers and keywords of the declaration lines that are read on a first inclusion,
  line by line, as a function of the macros that are defined when the conditionals are
  evaluated.
\<close>

definition active_tokens :: "string set \<Rightarrow> string list" where
  "active_tokens M =
     (if ''__linux__'' \<in> M then [''typedef'', ''uintptr_t'', ''__uintptr_t''] else []) @
     [''typedef'', ''int'', ''__nl_item''] @
     [''typedef'', ''size_t'', ''u_register_t''] @
     (if ''_CAP_IOCTL_T_DECLARED'' \<notin> M
      then [''typedef'', ''unsigned'', ''long'', ''cap_ioctl_t''] else []) @
     (if ''_CAP_RIGHTS_T_DECLARED'' \<notin> M
      then [''struct'', ''cap_rights'', ''typedef'', ''struct'', ''cap_rights'', ''cap_rights_t'']
      else [])"

section \<open>Example hosts\<close>

text \<open>
  Small hosts on which the statements are evaluated. The plain host has a
  \<^verbatim>\<open>sys/types.h\<close> that declares \<open>size_t\<close> and \<open>pid_t\<close> and a \<^verbatim>\<open>stdint.h\<close> that
  declares \<open>uint32_t\<close> and \<open>uintptr_t\<close>. A translation unit compiled for Linux starts
  with \<^verbatim>\<open>__linux__\<close> predefined, one compiled for macOS with \<^verbatim>\<open>__APPLE__\<close>.
\<close>

definition posix_sys_types :: "item list" where
  "posix_sys_types = [Typedef (Base CULong) ''size_t'', Typedef (Base CInt) ''pid_t'']"

definition host_stdint :: "item list" where
  "host_stdint = [Typedef (Base CUInt) ''uint32_t'', Typedef (Base CULong) ''uintptr_t'']"

definition posix_host :: platform where
  "posix_host =
     \<lparr>sys_types_h = Some posix_sys_types, stdint_h = Some host_stdint, typedef_redecl_ok = True,
      include_next_ok = True\<rparr>"

definition linux_tu :: tu_state where
  "linux_tu =
     \<lparr>macros = {''__linux__''}, typedefs = Map.empty, structs = Map.empty,
      objects = {}, other_tags = {}, once = {}, emitted = []\<rparr>"

definition mac_tu :: tu_state where
  "mac_tu =
     \<lparr>macros = {''__APPLE__''}, typedefs = Map.empty, structs = Map.empty,
      objects = {}, other_tags = {}, once = {}, emitted = []\<rparr>"

text \<open>
  A host whose own \<^verbatim>\<open>sys/types.h\<close> already declares \<open>__nl_item\<close> as \<open>int\<close>, as
  FreeBSD's does, besides its include guard, \<open>size_t\<close> and a complete struct; its
  compiler accepts the repeated typedef.
\<close>

definition bsd_sys_types :: "item list" where
  "bsd_sys_types =
     [Define ''_SYS_TYPES_H_'', Typedef (Base CULong) ''size_t'',
      Typedef (Base CInt) ''__nl_item'', StructDef ''timeval'']"

definition bsd_host :: platform where
  "bsd_host =
     \<lparr>sys_types_h = Some bsd_sys_types, stdint_h = Some host_stdint, typedef_redecl_ok = True,
      include_next_ok = True\<rparr>"

definition bsd_tu :: tu_state where
  "bsd_tu =
     \<lparr>macros = {''__FreeBSD__''}, typedefs = Map.empty, structs = Map.empty,
      objects = {}, other_tags = {}, once = {}, emitted = []\<rparr>"

text \<open>
  A host without \<^verbatim>\<open>stdint.h\<close> on the include path, and a host whose \<^verbatim>\<open>sys/types.h\<close>
  declares \<open>__nl_item\<close> with another type than the header's \<open>int\<close>.
\<close>

definition no_stdint_host :: platform where
  "no_stdint_host =
     \<lparr>sys_types_h = Some posix_sys_types, stdint_h = None, typedef_redecl_ok = True,
      include_next_ok = True\<rparr>"

definition clash_sys_types :: "item list" where
  "clash_sys_types = [Typedef (Base CULong) ''size_t'', Typedef (Base CLong) ''__nl_item'']"

definition clash_host :: platform where
  "clash_host =
     \<lparr>sys_types_h = Some clash_sys_types, stdint_h = Some host_stdint, typedef_redecl_ok = True,
      include_next_ok = True\<rparr>"

text \<open>
  A translation unit in which the capsicum header has been read before this one: both guard
  macros are defined and both types declared.
\<close>

definition capsicum_tu :: tu_state where
  "capsicum_tu =
     \<lparr>macros = {''__linux__'', ''_CAP_IOCTL_T_DECLARED'', ''_CAP_RIGHTS_T_DECLARED''},
      typedefs = [''cap_ioctl_t'' \<mapsto> Base CULong, ''cap_rights_t'' \<mapsto> StructT ''cap_rights''],
      structs = [''cap_rights'' \<mapsto> Complete],
      objects = {}, other_tags = {},
      once = {},
      emitted = [Typedef (Base CULong) ''cap_ioctl_t'', StructDef ''cap_rights'',
                 Typedef (StructT ''cap_rights'') ''cap_rights_t'']\<rparr>"

text \<open>
  A host whose compiler is told to reject extensions and anything C99 does not allow, and a
  translation unit in which \<open>__nl_item\<close> is defined as a macro (as with
  \<^verbatim>\<open>-D__nl_item=int\<close> on the command line).
\<close>

definition pedantic_host :: platform where
  "pedantic_host =
     \<lparr>sys_types_h = Some posix_sys_types, stdint_h = Some host_stdint, typedef_redecl_ok = False,
      include_next_ok = False\<rparr>"

definition nl_item_macro_tu :: tu_state where
  "nl_item_macro_tu =
     \<lparr>macros = {''__linux__'', ''__nl_item''}, typedefs = Map.empty, structs = Map.empty,
      objects = {}, other_tags = {}, once = {}, emitted = []\<rparr>"

text \<open>
  A translation unit that includes the header on the plain Linux host and then removes the
  two guard macros with \<^verbatim>\<open>#undef\<close>, as a source file may do before it includes the header
  once more.
\<close>

definition undef_guards_tu :: tu_state where
  "undef_guards_tu =
     projr (seq [ types_h posix_host,
                  undef_macro ''_CAP_IOCTL_T_DECLARED'',
                  undef_macro ''_CAP_RIGHTS_T_DECLARED'' ] linux_tu)"

section \<open>Effect of the single directives\<close>

lemmas ex_defs = posix_sys_types_def host_stdint_def posix_host_def linux_tu_def mac_tu_def
  bsd_sys_types_def bsd_host_def bsd_tu_def no_stdint_host_def clash_sys_types_def clash_host_def
  capsicum_tu_def pedantic_host_def nl_item_macro_tu_def

lemmas line_defs = line_uintptr_def line_nl_item_def line_u_register_def line_cap_ioctl_def
  line_struct_cap_rights_def line_cap_rights_def

lemmas sem_defs = types_h_def pragma_once_def include_next_def include_file_def ifdef_def
  ifndef_def source_line_def line_defs typedef_decl_def resolve_def struct_fwd_def
  struct_def_def object_decl_def other_tag_decl_def define_macro_def undef_macro_def
  this_file_def

lemma typedef_decl_Inr:
  assumes "typedef_decl ok t n s = Inr s'"
  shows "macros s' = macros s" and "structs s' = structs s" and "once s' = once s"
    and "emitted s' = emitted s @ [Typedef t n]"
    and "\<exists>c. resolve s t = Inr c \<and> typedefs s' = (typedefs s)(n \<mapsto> c)"
  using assms
  by (auto simp: typedef_decl_def split: sum.splits option.splits if_splits)

lemma struct_fwd_Inr:
  assumes "struct_fwd g s = Inr s'"
  shows "macros s' = macros s" and "typedefs s' = typedefs s" and "once s' = once s"
    and "emitted s' = emitted s @ [StructFwd g]"
    and "dom (structs s') = insert g (dom (structs s))"
    and "structs s h = Some k \<Longrightarrow> structs s' h = Some k"
    and "structs s g = None \<Longrightarrow> structs s' g = Some Incomplete"
    and "g \<notin> other_tags s" and "other_tags s' = other_tags s" and "objects s' = objects s"
  using assms
  by (auto simp: struct_fwd_def split: option.splits if_splits)

lemma object_decl_Inr:
  assumes "object_decl n s = Inr s'"
  shows "macros s' = macros s" and "typedefs s' = typedefs s" and "once s' = once s"
    and "emitted s' = emitted s @ [Object n]" and "structs s' = structs s"
    and "objects s' = insert n (objects s)" and "other_tags s' = other_tags s"
  using assms
  by (auto simp: object_decl_def split: if_splits)

lemma other_tag_decl_Inr:
  assumes "other_tag_decl g s = Inr s'"
  shows "macros s' = macros s" and "typedefs s' = typedefs s" and "once s' = once s"
    and "emitted s' = emitted s @ [OtherTag g]" and "structs s' = structs s"
    and "objects s' = objects s" and "other_tags s' = insert g (other_tags s)"
  using assms
  by (auto simp: other_tag_decl_def split: if_splits)

lemma struct_def_Inr:
  assumes "struct_def g s = Inr s'"
  shows "macros s' = macros s" and "typedefs s' = typedefs s" and "once s' = once s"
    and "emitted s' = emitted s @ [StructDef g]"
    and "dom (structs s') = insert g (dom (structs s))"
    and "structs s h = Some Complete \<Longrightarrow> structs s' h = Some Complete"
  using assms
  by (auto simp: struct_def_def split: option.splits if_splits)

lemma define_macro_Inr:
  assumes "define_macro m s = Inr s'"
  shows "macros s' = insert m (macros s)" and "typedefs s' = typedefs s" and "once s' = once s"
    and "emitted s' = emitted s" and "structs s' = structs s"
    and "objects s' = objects s" and "other_tags s' = other_tags s"
  using assms by (auto simp: define_macro_def)

lemma seq_Cons_Inr:
  "seq (d # ds) s = Inr s' \<longleftrightarrow> (\<exists>m. d s = Inr m \<and> seq ds m = Inr s')"
  by (auto split: sum.splits)

lemma seq_append_Inr:
  "seq (ds @ es) s = Inr s' \<longleftrightarrow> (\<exists>m. seq ds s = Inr m \<and> seq es m = Inr s')"
  by (induction ds arbitrary: s) (auto split: sum.splits)

lemma exec_item_Inr:
  assumes "exec_item ok i s = Inr s'"
  shows "macros s' = macros s \<union> defines_of [i]"
    and "once s' = once s"
    and "emitted s' = emitted s @ decls_of [i]"
    and "dom (typedefs s') = dom (typedefs s) \<union> typedef_names [i]"
    and "typedefs s \<subseteq>\<^sub>m typedefs s'"
    and "dom (structs s') = dom (structs s) \<union> struct_tags [i]"
    and "structs s h = Some Complete \<Longrightarrow> structs s' h = Some Complete"
proof -
  show "macros s' = macros s \<union> defines_of [i]"
    using assms
    by (cases i) (auto dest: typedef_decl_Inr struct_fwd_Inr struct_def_Inr define_macro_Inr
        object_decl_Inr other_tag_decl_Inr)
  show "once s' = once s"
    using assms
    by (cases i) (auto dest: typedef_decl_Inr struct_fwd_Inr struct_def_Inr define_macro_Inr
        object_decl_Inr other_tag_decl_Inr)
  show "emitted s' = emitted s @ decls_of [i]"
    using assms
    by (cases i) (auto simp: decls_of_def dest: typedef_decl_Inr struct_fwd_Inr struct_def_Inr
        define_macro_Inr object_decl_Inr other_tag_decl_Inr)
  show "dom (typedefs s') = dom (typedefs s) \<union> typedef_names [i]"
    using assms
    by (cases i) (auto dest!: typedef_decl_Inr(5) struct_fwd_Inr(2) struct_def_Inr(2)
        define_macro_Inr(2) object_decl_Inr(2) other_tag_decl_Inr(2))
  show "typedefs s \<subseteq>\<^sub>m typedefs s'"
    using assms
    by (cases i) (auto simp: map_le_def typedef_decl_def define_macro_def struct_fwd_def struct_def_def
        object_decl_def other_tag_decl_def split: sum.splits option.splits if_splits)
  show "dom (structs s') = dom (structs s) \<union> struct_tags [i]"
    using assms
    by (cases i) (auto dest!: typedef_decl_Inr(2) struct_fwd_Inr(5) struct_def_Inr(5)
        define_macro_Inr(5) object_decl_Inr(5) other_tag_decl_Inr(5))
  show "structs s h = Some Complete \<Longrightarrow> structs s' h = Some Complete"
    using assms
    by (cases i) (auto simp: typedef_decl_def define_macro_def struct_fwd_def struct_def_def
        object_decl_def other_tag_decl_def split: sum.splits option.splits if_splits)
qed

lemma exec_item_names:
  assumes "exec_item ok i s = Inr s'"
  shows "objects s' = objects s \<union> object_names [i]"
    and "other_tags s' = other_tags s \<union> other_tag_names [i]"
proof -
  show "objects s' = objects s \<union> object_names [i]"
    using assms
    by (cases i) (auto simp: typedef_decl_def define_macro_def struct_fwd_def struct_def_def
        object_decl_def other_tag_decl_def split: sum.splits option.splits if_splits)
  show "other_tags s' = other_tags s \<union> other_tag_names [i]"
    using assms
    by (cases i) (auto simp: typedef_decl_def define_macro_def struct_fwd_def struct_def_def
        object_decl_def other_tag_decl_def split: sum.splits option.splits if_splits)
qed

lemma object_names_append: "object_names (xs @ ys) = object_names xs \<union> object_names ys"
  by (induction xs rule: object_names.induct) auto

lemma other_tag_names_append:
  "other_tag_names (xs @ ys) = other_tag_names xs \<union> other_tag_names ys"
  by (induction xs rule: other_tag_names.induct) auto

lemma defines_of_append: "defines_of (xs @ ys) = defines_of xs \<union> defines_of ys"
  by (induction xs rule: defines_of.induct) auto

lemma typedef_names_append: "typedef_names (xs @ ys) = typedef_names xs \<union> typedef_names ys"
  by (induction xs rule: typedef_names.induct) auto

lemma struct_tags_append: "struct_tags (xs @ ys) = struct_tags xs \<union> struct_tags ys"
  by (induction xs rule: struct_tags.induct) auto

lemma decls_of_append: "decls_of (xs @ ys) = decls_of xs @ decls_of ys"
  by (simp add: decls_of_def)

lemma typedef_names_iff: "n \<in> typedef_names its \<longleftrightarrow> (\<exists>t. Typedef t n \<in> set its)"
  by (induction its rule: typedef_names.induct) auto

lemma exec_items_Inr:
  assumes "seq (map (exec_item ok) its) s = Inr s'"
  shows "macros s' = macros s \<union> defines_of its
       \<and> once s' = once s
       \<and> emitted s' = emitted s @ decls_of its
       \<and> dom (typedefs s') = dom (typedefs s) \<union> typedef_names its
       \<and> typedefs s \<subseteq>\<^sub>m typedefs s'
       \<and> dom (structs s') = dom (structs s) \<union> struct_tags its
       \<and> (\<forall>h. structs s h = Some Complete \<longrightarrow> structs s' h = Some Complete)"
  using assms
proof (induction its arbitrary: s)
  case Nil
  then show ?case by (simp add: decls_of_def)
next
  case (Cons i its)
  from Cons.prems obtain m where step: "exec_item ok i s = Inr m"
    and rest: "seq (map (exec_item ok) its) m = Inr s'"
    by (auto simp: seq_Cons_Inr simp del: seq.simps)
  note a = exec_item_Inr[OF step]
  note b = Cons.IH[OF rest]
  have app: "i # its = [i] @ its" by simp
  have "macros s' = macros s \<union> defines_of (i # its)"
    unfolding app defines_of_append using a(1) b by auto
  moreover have "once s' = once s" using a(2) b by simp
  moreover have "emitted s' = emitted s @ decls_of (i # its)"
    unfolding app decls_of_append using a(3) b by simp
  moreover have "dom (typedefs s') = dom (typedefs s) \<union> typedef_names (i # its)"
    unfolding app typedef_names_append using a(4) b by auto
  moreover have "typedefs s \<subseteq>\<^sub>m typedefs s'"
    using a(5) b by (blast intro: map_le_trans)
  moreover have "dom (structs s') = dom (structs s) \<union> struct_tags (i # its)"
    unfolding app struct_tags_append using a(6) b by auto
  moreover have "\<forall>h. structs s h = Some Complete \<longrightarrow> structs s' h = Some Complete"
    using a(7) b by blast
  ultimately show ?case by blast
qed

lemma exec_items_names:
  assumes "seq (map (exec_item ok) its) s = Inr s'"
  shows "objects s' = objects s \<union> object_names its
       \<and> other_tags s' = other_tags s \<union> other_tag_names its"
  using assms
proof (induction its arbitrary: s)
  case Nil
  then show ?case by simp
next
  case (Cons i its)
  from Cons.prems obtain m where step: "exec_item ok i s = Inr m"
    and rest: "seq (map (exec_item ok) its) m = Inr s'"
    by (auto simp: seq_Cons_Inr simp del: seq.simps)
  note a = exec_item_names[OF step]
  note b = Cons.IH[OF rest]
  have app: "i # its = [i] @ its" by simp
  have "objects s' = objects s \<union> object_names (i # its)"
    unfolding app object_names_append using a(1) b by auto
  moreover have "other_tags s' = other_tags s \<union> other_tag_names (i # its)"
    unfolding app other_tag_names_append using a(2) b by auto
  ultimately show ?case by blast
qed

lemma seq_single: "seq [d] s = d s"
  by (simp split: sum.splits)

lemma typedef_decl_facts:
  assumes "typedef_decl ok t n s = Inr s'"
  shows "macros s' = macros s \<and> once s' = once s \<and> structs s' = structs s
       \<and> emitted s' = emitted s @ [Typedef t n]
       \<and> typedefs s \<subseteq>\<^sub>m typedefs s'
       \<and> dom (typedefs s') = insert n (dom (typedefs s))
       \<and> (\<exists>c. resolve s t = Inr c \<and> typedefs s' n = Some c)"
  using assms
  by (auto simp: typedef_decl_def map_le_def split: sum.splits option.splits if_splits)

lemma typedef_decl_names_kept:
  assumes "typedef_decl ok t n s = Inr s'"
  shows "objects s' = objects s" and "other_tags s' = other_tags s"
  using assms
  by (auto simp: typedef_decl_def split: sum.splits option.splits if_splits)

lemma source_line_Inr:
  "source_line toks d s = Inr s' \<longleftrightarrow> (\<forall>t \<in> set toks. t \<notin> macros s) \<and> d s = Inr s'"
  by (auto simp: source_line_def find_None_iff find_Some_iff split: option.splits)

lemma source_line_Inl:
  assumes "source_line toks d s = Inl e"
  shows "(\<exists>t \<in> set toks. t \<in> macros s \<and> e = MacroRewrites t)
       \<or> ((\<forall>t \<in> set toks. t \<notin> macros s) \<and> d s = Inl e)"
  using assms
  by (auto simp: source_line_def find_None_iff find_Some_iff split: option.splits)

lemma line_uintptr_Inr:
  "line_uintptr ok s = Inr s' \<longleftrightarrow>
     (\<forall>t \<in> set [''typedef'', ''uintptr_t'', ''__uintptr_t'']. t \<notin> macros s)
     \<and> typedef_decl ok (Named ''uintptr_t'') ''__uintptr_t'' s = Inr s'"
  unfolding line_uintptr_def by (rule source_line_Inr)

lemma line_nl_item_Inr:
  "line_nl_item ok s = Inr s' \<longleftrightarrow>
     (\<forall>t \<in> set [''typedef'', ''int'', ''__nl_item'']. t \<notin> macros s)
     \<and> typedef_decl ok (Base CInt) ''__nl_item'' s = Inr s'"
  unfolding line_nl_item_def by (rule source_line_Inr)

lemma line_u_register_Inr:
  "line_u_register ok s = Inr s' \<longleftrightarrow>
     (\<forall>t \<in> set [''typedef'', ''size_t'', ''u_register_t'']. t \<notin> macros s)
     \<and> typedef_decl ok (Named ''size_t'') ''u_register_t'' s = Inr s'"
  unfolding line_u_register_def by (rule source_line_Inr)

lemma line_cap_ioctl_Inr:
  "line_cap_ioctl ok s = Inr s' \<longleftrightarrow>
     (\<forall>t \<in> set [''typedef'', ''unsigned'', ''long'', ''cap_ioctl_t'']. t \<notin> macros s)
     \<and> typedef_decl ok (Base CULong) ''cap_ioctl_t'' s = Inr s'"
  unfolding line_cap_ioctl_def by (rule source_line_Inr)

lemma line_struct_cap_rights_Inr:
  "line_struct_cap_rights s = Inr s' \<longleftrightarrow>
     (\<forall>t \<in> set [''struct'', ''cap_rights'']. t \<notin> macros s)
     \<and> struct_fwd ''cap_rights'' s = Inr s'"
  unfolding line_struct_cap_rights_def by (rule source_line_Inr)

lemma line_cap_rights_Inr:
  "line_cap_rights ok s = Inr s' \<longleftrightarrow>
     (\<forall>t \<in> set [''typedef'', ''struct'', ''cap_rights'', ''cap_rights_t'']. t \<notin> macros s)
     \<and> typedef_decl ok (StructT ''cap_rights'') ''cap_rights_t'' s = Inr s'"
  unfolding line_cap_rights_def by (rule source_line_Inr)

section \<open>Effect of the header\<close>

text \<open>The part of the header after the two includes.\<close>

lemma patches_Inr:
  assumes "seq
       [ ifdef ''__linux__'' [ typedef_decl ok (Named ''uintptr_t'') ''__uintptr_t'' ],
         typedef_decl ok (Base CInt) ''__nl_item'',
         typedef_decl ok (Named ''size_t'') ''u_register_t'',
         ifndef ''_CAP_IOCTL_T_DECLARED''
           [ define_macro ''_CAP_IOCTL_T_DECLARED'',
             typedef_decl ok (Base CULong) ''cap_ioctl_t'' ],
         ifndef ''_CAP_RIGHTS_T_DECLARED''
           [ define_macro ''_CAP_RIGHTS_T_DECLARED'',
             struct_fwd ''cap_rights'',
             typedef_decl ok (StructT ''cap_rights'') ''cap_rights_t'' ] ] m = Inr s'"
  shows "macros s' = macros m \<union> {''_CAP_IOCTL_T_DECLARED'', ''_CAP_RIGHTS_T_DECLARED''}"
    and "once s' = once m"
    and "emitted s' = emitted m @ patch_decls (macros m)"
    and "dom (typedefs s') = dom (typedefs m) \<union> typedef_names (patch_decls (macros m))"
    and "typedefs m \<subseteq>\<^sub>m typedefs s'"
    and "dom (structs s') = dom (structs m) \<union> struct_tags (patch_decls (macros m))"
    and "structs m h = Some k \<Longrightarrow> structs s' h = Some k"
    and "typedefs s' ''__nl_item'' = Some (Base CInt)"
    and "''_CAP_IOCTL_T_DECLARED'' \<notin> macros m \<Longrightarrow> typedefs s' ''cap_ioctl_t'' = Some (Base CULong)"
    and "''_CAP_RIGHTS_T_DECLARED'' \<notin> macros m \<Longrightarrow> typedefs s' ''cap_rights_t'' = Some (StructT ''cap_rights'')"
    and "''_CAP_RIGHTS_T_DECLARED'' \<notin> macros m \<Longrightarrow> structs m ''cap_rights'' = None \<Longrightarrow> structs s' ''cap_rights'' = Some Incomplete"
    and "''_CAP_RIGHTS_T_DECLARED'' \<notin> macros m \<Longrightarrow> ''cap_rights'' \<notin> other_tags s'"
proof -
  from assms obtain a b c d where
    s1: "ifdef ''__linux__'' [ typedef_decl ok (Named ''uintptr_t'') ''__uintptr_t'' ] m = Inr a"
    and s2: "typedef_decl ok (Base CInt) ''__nl_item'' a = Inr b"
    and s3: "typedef_decl ok (Named ''size_t'') ''u_register_t'' b = Inr c"
    and s4: "ifndef ''_CAP_IOCTL_T_DECLARED''
           [ define_macro ''_CAP_IOCTL_T_DECLARED'',
             typedef_decl ok (Base CULong) ''cap_ioctl_t'' ] c = Inr d"
    and s5: "ifndef ''_CAP_RIGHTS_T_DECLARED''
           [ define_macro ''_CAP_RIGHTS_T_DECLARED'',
             struct_fwd ''cap_rights'',
             typedef_decl ok (StructT ''cap_rights'') ''cap_rights_t'' ] d = Inr s'"
    by (auto simp: seq_Cons_Inr simp del: seq.simps(2))
  have fa: "macros a = macros m \<and> once a = once m \<and> structs a = structs m
    \<and> emitted a = emitted m @ (if ''__linux__'' \<in> macros m then [Typedef (Named ''uintptr_t'') ''__uintptr_t''] else [])
    \<and> typedefs m \<subseteq>\<^sub>m typedefs a
    \<and> dom (typedefs a) = dom (typedefs m) \<union> (if ''__linux__'' \<in> macros m then {''__uintptr_t''} else {})"
  proof (cases "''__linux__'' \<in> macros m")
    case True
    with s1 have "typedef_decl ok (Named ''uintptr_t'') ''__uintptr_t'' m = Inr a"
      by (simp add: ifdef_def seq_single del: seq.simps)
    from typedef_decl_facts[OF this] True show ?thesis by auto
  next
    case False
    with s1 have "a = m" by (simp add: ifdef_def)
    with False show ?thesis by simp
  qed
  note fb = typedef_decl_facts[OF s2]
  note fc = typedef_decl_facts[OF s3]
  have fd: "macros d = insert ''_CAP_IOCTL_T_DECLARED'' (macros c) \<and> once d = once c \<and> structs d = structs c
    \<and> emitted d = emitted c @ (if ''_CAP_IOCTL_T_DECLARED'' \<notin> macros c then [Typedef (Base CULong) ''cap_ioctl_t''] else [])
    \<and> typedefs c \<subseteq>\<^sub>m typedefs d
    \<and> dom (typedefs d) = dom (typedefs c) \<union> (if ''_CAP_IOCTL_T_DECLARED'' \<notin> macros c then {''cap_ioctl_t''} else {})
    \<and> (''_CAP_IOCTL_T_DECLARED'' \<notin> macros c \<longrightarrow> typedefs d ''cap_ioctl_t'' = Some (Base CULong))"
  proof (cases "''_CAP_IOCTL_T_DECLARED'' \<in> macros c")
    case True
    with s4 have "d = c" by (simp add: ifndef_def)
    with True show ?thesis by auto
  next
    case False
    with s4 obtain x where x: "define_macro ''_CAP_IOCTL_T_DECLARED'' c = Inr x"
      and y: "typedef_decl ok (Base CULong) ''cap_ioctl_t'' x = Inr d"
      by (auto simp: ifndef_def seq_Cons_Inr seq_single simp del: seq.simps)
    from typedef_decl_facts[OF y] define_macro_Inr[OF x] False show ?thesis
      by (auto simp: resolve_def)
  qed
  have fe: "macros s' = insert ''_CAP_RIGHTS_T_DECLARED'' (macros d) \<and> once s' = once d
    \<and> emitted s' = emitted d @ (if ''_CAP_RIGHTS_T_DECLARED'' \<notin> macros d
         then [StructFwd ''cap_rights'', Typedef (StructT ''cap_rights'') ''cap_rights_t''] else [])
    \<and> typedefs d \<subseteq>\<^sub>m typedefs s'
    \<and> dom (typedefs s') = dom (typedefs d) \<union> (if ''_CAP_RIGHTS_T_DECLARED'' \<notin> macros d then {''cap_rights_t''} else {})
    \<and> dom (structs s') = dom (structs d) \<union> (if ''_CAP_RIGHTS_T_DECLARED'' \<notin> macros d then {''cap_rights''} else {})
    \<and> (\<forall>h k. structs d h = Some k \<longrightarrow> structs s' h = Some k)
    \<and> (''_CAP_RIGHTS_T_DECLARED'' \<notin> macros d \<longrightarrow> typedefs s' ''cap_rights_t'' = Some (StructT ''cap_rights''))
    \<and> (''_CAP_RIGHTS_T_DECLARED'' \<notin> macros d \<longrightarrow> structs d ''cap_rights'' = None \<longrightarrow> structs s' ''cap_rights'' = Some Incomplete)"
  proof (cases "''_CAP_RIGHTS_T_DECLARED'' \<in> macros d")
    case True
    with s5 have "s' = d" by (simp add: ifndef_def)
    with True show ?thesis by auto
  next
    case False
    with s5 obtain x y where x: "define_macro ''_CAP_RIGHTS_T_DECLARED'' d = Inr x"
      and y: "struct_fwd ''cap_rights'' x = Inr y"
      and z: "typedef_decl ok (StructT ''cap_rights'') ''cap_rights_t'' y = Inr s'"
      by (auto simp: ifndef_def seq_Cons_Inr seq_single simp del: seq.simps)
    from typedef_decl_facts[OF z] struct_fwd_Inr[OF y] define_macro_Inr[OF x] False show ?thesis
      by (auto simp: resolve_def)
  qed
  have ft: "''cap_rights'' \<notin> other_tags s'" if g: "''_CAP_RIGHTS_T_DECLARED'' \<notin> macros d"
  proof -
    from s5 g obtain x y where x: "define_macro ''_CAP_RIGHTS_T_DECLARED'' d = Inr x"
      and y: "struct_fwd ''cap_rights'' x = Inr y"
      and z: "typedef_decl ok (StructT ''cap_rights'') ''cap_rights_t'' y = Inr s'"
      by (auto simp: ifndef_def seq_Cons_Inr seq_single simp del: seq.simps)
    have "''cap_rights'' \<notin> other_tags x" by (rule struct_fwd_Inr(8)[OF y])
    moreover have "other_tags y = other_tags x" by (rule struct_fwd_Inr(9)[OF y])
    moreover have "other_tags s' = other_tags y" by (rule typedef_decl_names_kept(2)[OF z])
    ultimately show ?thesis by simp
  qed
  have mc: "macros c = macros m" using fa fb fc by simp
  have md: "macros d = insert ''_CAP_IOCTL_T_DECLARED'' (macros m)" using fd mc by simp
  have g1: "''_CAP_IOCTL_T_DECLARED'' \<notin> macros c \<longleftrightarrow> ''_CAP_IOCTL_T_DECLARED'' \<notin> macros m"
    using mc by simp
  have g2: "''_CAP_RIGHTS_T_DECLARED'' \<notin> macros d \<longleftrightarrow> ''_CAP_RIGHTS_T_DECLARED'' \<notin> macros m"
    using md by simp
  have ea: "emitted a = emitted m @ (if ''__linux__'' \<in> macros m then [Typedef (Named ''uintptr_t'') ''__uintptr_t''] else [])"
    using fa by blast
  have eb: "emitted b = emitted a @ [Typedef (Base CInt) ''__nl_item'']" using fb by blast
  have ec: "emitted c = emitted b @ [Typedef (Named ''size_t'') ''u_register_t'']" using fc by blast
  have ed: "emitted d = emitted c @ (if ''_CAP_IOCTL_T_DECLARED'' \<notin> macros m then [Typedef (Base CULong) ''cap_ioctl_t''] else [])"
    using fd unfolding g1 by blast
  have ee: "emitted s' = emitted d @ (if ''_CAP_RIGHTS_T_DECLARED'' \<notin> macros m
         then [StructFwd ''cap_rights'', Typedef (StructT ''cap_rights'') ''cap_rights_t''] else [])"
    using fe unfolding g2 by blast
  have da: "dom (typedefs a) = dom (typedefs m) \<union> (if ''__linux__'' \<in> macros m then {''__uintptr_t''} else {})"
    using fa by blast
  have db: "dom (typedefs b) = insert ''__nl_item'' (dom (typedefs a))" using fb by blast
  have dc: "dom (typedefs c) = insert ''u_register_t'' (dom (typedefs b))" using fc by blast
  have dd: "dom (typedefs d) = dom (typedefs c) \<union> (if ''_CAP_IOCTL_T_DECLARED'' \<notin> macros m then {''cap_ioctl_t''} else {})"
    using fd unfolding g1 by blast
  have de: "dom (typedefs s') = dom (typedefs d) \<union> (if ''_CAP_RIGHTS_T_DECLARED'' \<notin> macros m then {''cap_rights_t''} else {})"
    using fe unfolding g2 by blast
  have sa: "structs a = structs m" using fa by blast
  have sb: "structs b = structs a" using fb by blast
  have sc: "structs c = structs b" using fc by blast
  have sd: "structs d = structs c" using fd by blast
  have sdm: "structs d = structs m" using sa sb sc sd by simp
  have se: "dom (structs s') = dom (structs d) \<union> (if ''_CAP_RIGHTS_T_DECLARED'' \<notin> macros m then {''cap_rights''} else {})"
    using fe unfolding g2 by blast
  have le_a: "typedefs m \<subseteq>\<^sub>m typedefs a" using fa by blast
  have le_b: "typedefs a \<subseteq>\<^sub>m typedefs b" using fb by blast
  have le_c: "typedefs b \<subseteq>\<^sub>m typedefs c" using fc by blast
  have le_d: "typedefs c \<subseteq>\<^sub>m typedefs d" using fd by blast
  have le_e: "typedefs d \<subseteq>\<^sub>m typedefs s'" using fe by blast
  show "macros s' = macros m \<union> {''_CAP_IOCTL_T_DECLARED'', ''_CAP_RIGHTS_T_DECLARED''}"
    using fe md by auto
  have "once a = once m" using fa by blast
  moreover have "once b = once a" using fb by blast
  moreover have "once c = once b" using fc by blast
  moreover have "once d = once c" using fd by blast
  moreover have "once s' = once d" using fe by blast
  ultimately show "once s' = once m" by simp
  show "emitted s' = emitted m @ patch_decls (macros m)"
    unfolding ee ed ec eb ea by (simp add: patch_decls_def)
  show "dom (typedefs s') = dom (typedefs m) \<union> typedef_names (patch_decls (macros m))"
    unfolding de dd dc db da by (auto simp: patch_decls_def)
  show "typedefs m \<subseteq>\<^sub>m typedefs s'"
    using le_a le_b le_c le_d le_e by (blast intro: map_le_trans)
  show "dom (structs s') = dom (structs m) \<union> struct_tags (patch_decls (macros m))"
    unfolding se sdm by (auto simp: patch_decls_def)
  show "structs m h = Some k \<Longrightarrow> structs s' h = Some k"
    using fe unfolding sdm by blast
  have "typedefs b ''__nl_item'' = Some (Base CInt)"
    using fb by (auto simp: resolve_def)
  then have "typedefs c ''__nl_item'' = Some (Base CInt)"
    using le_c by (auto simp: map_le_def dom_def)
  then have "typedefs d ''__nl_item'' = Some (Base CInt)"
    using le_d by (auto simp: map_le_def dom_def)
  then show "typedefs s' ''__nl_item'' = Some (Base CInt)"
    using le_e by (auto simp: map_le_def dom_def)
  show "typedefs s' ''cap_ioctl_t'' = Some (Base CULong)" if "''_CAP_IOCTL_T_DECLARED'' \<notin> macros m"
  proof -
    have "typedefs d ''cap_ioctl_t'' = Some (Base CULong)"
      using fd that unfolding g1 by blast
    then show ?thesis using le_e by (auto simp: map_le_def dom_def)
  qed
  show "''_CAP_RIGHTS_T_DECLARED'' \<notin> macros m \<Longrightarrow> typedefs s' ''cap_rights_t'' = Some (StructT ''cap_rights'')"
    using fe unfolding g2 by blast
  show "''_CAP_RIGHTS_T_DECLARED'' \<notin> macros m \<Longrightarrow> structs m ''cap_rights'' = None \<Longrightarrow> structs s' ''cap_rights'' = Some Incomplete"
    using fe unfolding g2 sdm by blast
  show "''_CAP_RIGHTS_T_DECLARED'' \<notin> macros m \<Longrightarrow> ''cap_rights'' \<notin> other_tags s'"
    using ft unfolding g2 .
qed

lemma seq_names_kept:
  assumes "\<And>d a b. d \<in> set ds \<Longrightarrow> d a = Inr b \<Longrightarrow>
             objects b = objects a \<and> other_tags b = other_tags a"
    and "seq ds s = Inr s'"
  shows "objects s' = objects s \<and> other_tags s' = other_tags s"
  using assms
proof (induction ds arbitrary: s)
  case Nil
  then show ?case by simp
next
  case (Cons d ds)
  from Cons.prems(2) obtain m where d: "d s = Inr m" and r: "seq ds m = Inr s'"
    unfolding seq_Cons_Inr by blast
  have "objects m = objects s \<and> other_tags m = other_tags s"
    using Cons.prems(1)[of d s m] d by simp
  moreover have "objects s' = objects m \<and> other_tags s' = other_tags m"
  proof (rule Cons.IH)
    show "objects b = objects a \<and> other_tags b = other_tags a" if "e \<in> set ds" and "e a = Inr b" for e a b
      using Cons.prems(1)[of e a b] that by simp
    show "seq ds m = Inr s'" by (rule r)
  qed
  ultimately show ?case by simp
qed

lemma typedef_decl_names_kept':
  "typedef_decl ok t n a = Inr b \<Longrightarrow> objects b = objects a \<and> other_tags b = other_tags a"
  using typedef_decl_names_kept[of ok t n a b] by simp

lemma define_macro_names_kept:
  "define_macro g a = Inr b \<Longrightarrow> objects b = objects a \<and> other_tags b = other_tags a"
  by (auto simp: define_macro_def)

lemma struct_fwd_names_kept:
  "struct_fwd g a = Inr b \<Longrightarrow> objects b = objects a \<and> other_tags b = other_tags a"
  by (auto simp: struct_fwd_def split: if_splits)

lemma ifdef_names_kept:
  assumes "\<And>d a b. d \<in> set body \<Longrightarrow> d a = Inr b \<Longrightarrow>
             objects b = objects a \<and> other_tags b = other_tags a"
    and "ifdef g body s = Inr s'"
  shows "objects s' = objects s \<and> other_tags s' = other_tags s"
proof (cases "g \<in> macros s")
  case False
  with assms(2) show ?thesis by (simp add: ifdef_def)
next
  case True
  with assms(2) have "seq body s = Inr s'" by (simp add: ifdef_def)
  with assms(1) show ?thesis by (rule seq_names_kept)
qed

lemma ifndef_names_kept:
  assumes "\<And>d a b. d \<in> set body \<Longrightarrow> d a = Inr b \<Longrightarrow>
             objects b = objects a \<and> other_tags b = other_tags a"
    and "ifndef g body s = Inr s'"
  shows "objects s' = objects s \<and> other_tags s' = other_tags s"
proof (cases "g \<in> macros s")
  case True
  with assms(2) show ?thesis by (simp add: ifndef_def)
next
  case False
  with assms(2) have "seq body s = Inr s'" by (simp add: ifndef_def)
  with assms(1) show ?thesis by (rule seq_names_kept)
qed

lemma patches_names_kept:
  assumes "seq
       [ ifdef ''__linux__'' [ typedef_decl ok (Named ''uintptr_t'') ''__uintptr_t'' ],
         typedef_decl ok (Base CInt) ''__nl_item'',
         typedef_decl ok (Named ''size_t'') ''u_register_t'',
         ifndef ''_CAP_IOCTL_T_DECLARED''
           [ define_macro ''_CAP_IOCTL_T_DECLARED'',
             typedef_decl ok (Base CULong) ''cap_ioctl_t'' ],
         ifndef ''_CAP_RIGHTS_T_DECLARED''
           [ define_macro ''_CAP_RIGHTS_T_DECLARED'',
             struct_fwd ''cap_rights'',
             typedef_decl ok (StructT ''cap_rights'') ''cap_rights_t'' ] ] m = Inr s'"
  shows "objects s' = objects m \<and> other_tags s' = other_tags m"
proof (rule seq_names_kept[OF _ assms])
  fix d a b
  assume d: "d \<in> set [ ifdef ''__linux__'' [ typedef_decl ok (Named ''uintptr_t'') ''__uintptr_t'' ],
         typedef_decl ok (Base CInt) ''__nl_item'',
         typedef_decl ok (Named ''size_t'') ''u_register_t'',
         ifndef ''_CAP_IOCTL_T_DECLARED''
           [ define_macro ''_CAP_IOCTL_T_DECLARED'',
             typedef_decl ok (Base CULong) ''cap_ioctl_t'' ],
         ifndef ''_CAP_RIGHTS_T_DECLARED''
           [ define_macro ''_CAP_RIGHTS_T_DECLARED'',
             struct_fwd ''cap_rights'',
             typedef_decl ok (StructT ''cap_rights'') ''cap_rights_t'' ] ]"
    and r: "d a = Inr b"
  from d consider
      (1) "d = ifdef ''__linux__'' [ typedef_decl ok (Named ''uintptr_t'') ''__uintptr_t'' ]"
    | (2) "d = typedef_decl ok (Base CInt) ''__nl_item''"
    | (3) "d = typedef_decl ok (Named ''size_t'') ''u_register_t''"
    | (4) "d = ifndef ''_CAP_IOCTL_T_DECLARED''
           [ define_macro ''_CAP_IOCTL_T_DECLARED'',
             typedef_decl ok (Base CULong) ''cap_ioctl_t'' ]"
    | (5) "d = ifndef ''_CAP_RIGHTS_T_DECLARED''
           [ define_macro ''_CAP_RIGHTS_T_DECLARED'',
             struct_fwd ''cap_rights'',
             typedef_decl ok (StructT ''cap_rights'') ''cap_rights_t'' ]"
    unfolding set_simps insert_iff empty_iff by argo
  then show "objects b = objects a \<and> other_tags b = other_tags a"
  proof cases
    case 1
    show ?thesis
      by (rule ifdef_names_kept[OF _ r[unfolded 1]]) (auto dest: typedef_decl_names_kept')
  next
    case 2
    with r show ?thesis by (auto dest: typedef_decl_names_kept')
  next
    case 3
    with r show ?thesis by (auto dest: typedef_decl_names_kept')
  next
    case 4
    show ?thesis
      by (rule ifndef_names_kept[OF _ r[unfolded 4]])
        (auto dest: typedef_decl_names_kept' define_macro_names_kept)
  next
    case 5
    show ?thesis
      by (rule ifndef_names_kept[OF _ r[unfolded 5]])
        (auto dest: typedef_decl_names_kept' define_macro_names_kept struct_fwd_names_kept)
  qed
qed

text \<open>
  Where the declaration lines are read as written, they make the declarations they spell.
\<close>

lemma lines_as_written:
  assumes "seq
       [ ifdef ''__linux__'' [ line_uintptr ok ],
         line_nl_item ok,
         line_u_register ok,
         ifndef ''_CAP_IOCTL_T_DECLARED''
           [ define_macro ''_CAP_IOCTL_T_DECLARED'', line_cap_ioctl ok ],
         ifndef ''_CAP_RIGHTS_T_DECLARED''
           [ define_macro ''_CAP_RIGHTS_T_DECLARED'',
             line_struct_cap_rights,
             line_cap_rights ok ] ] m = Inr s'"
  shows "seq
       [ ifdef ''__linux__'' [ typedef_decl ok (Named ''uintptr_t'') ''__uintptr_t'' ],
         typedef_decl ok (Base CInt) ''__nl_item'',
         typedef_decl ok (Named ''size_t'') ''u_register_t'',
         ifndef ''_CAP_IOCTL_T_DECLARED''
           [ define_macro ''_CAP_IOCTL_T_DECLARED'',
             typedef_decl ok (Base CULong) ''cap_ioctl_t'' ],
         ifndef ''_CAP_RIGHTS_T_DECLARED''
           [ define_macro ''_CAP_RIGHTS_T_DECLARED'',
             struct_fwd ''cap_rights'',
             typedef_decl ok (StructT ''cap_rights'') ''cap_rights_t'' ] ] m = Inr s'"
    and "\<forall>t \<in> set [''typedef'', ''int'', ''__nl_item'', ''size_t'', ''u_register_t'']. t \<notin> macros m"
    and "''__linux__'' \<in> macros m \<Longrightarrow>
           \<forall>t \<in> set [''typedef'', ''uintptr_t'', ''__uintptr_t'']. t \<notin> macros m"
    and "''_CAP_IOCTL_T_DECLARED'' \<notin> macros m \<Longrightarrow>
           \<forall>t \<in> set [''typedef'', ''unsigned'', ''long'', ''cap_ioctl_t'']. t \<notin> macros m"
    and "''_CAP_RIGHTS_T_DECLARED'' \<notin> macros m \<Longrightarrow>
           \<forall>t \<in> set [''struct'', ''cap_rights'', ''typedef'', ''struct'', ''cap_rights'',
                       ''cap_rights_t'']. t \<notin> macros m"
proof -
  from assms obtain a b c d where
    s1: "ifdef ''__linux__'' [ line_uintptr ok ] m = Inr a"
    and s2: "line_nl_item ok a = Inr b"
    and s3: "line_u_register ok b = Inr c"
    and s4: "ifndef ''_CAP_IOCTL_T_DECLARED''
           [ define_macro ''_CAP_IOCTL_T_DECLARED'', line_cap_ioctl ok ] c = Inr d"
    and s5: "ifndef ''_CAP_RIGHTS_T_DECLARED''
           [ define_macro ''_CAP_RIGHTS_T_DECLARED'',
             line_struct_cap_rights,
             line_cap_rights ok ] d = Inr s'"
    by (auto simp: seq_Cons_Inr simp del: seq.simps(2))
  have t1: "ifdef ''__linux__'' [ typedef_decl ok (Named ''uintptr_t'') ''__uintptr_t'' ] m = Inr a"
    using s1 by (simp add: ifdef_def seq_single line_uintptr_Inr del: seq.simps split: if_splits)
  have ma: "macros a = macros m"
  proof (cases "''__linux__'' \<in> macros m")
    case True
    with t1 have "typedef_decl ok (Named ''uintptr_t'') ''__uintptr_t'' m = Inr a"
      by (simp add: ifdef_def seq_single del: seq.simps)
    then show ?thesis by (rule typedef_decl_Inr(1))
  next
    case False
    with t1 show ?thesis by (simp add: ifdef_def)
  qed
  note l2 = s2[unfolded line_nl_item_Inr]
  have t2: "typedef_decl ok (Base CInt) ''__nl_item'' a = Inr b"
    by (rule conjunct2[OF l2])
  have u2: "\<forall>t \<in> set [''typedef'', ''int'', ''__nl_item'']. t \<notin> macros m"
    using conjunct1[OF l2] unfolding ma .
  have mb: "macros b = macros m"
    using typedef_decl_Inr(1)[OF t2] ma by simp
  note l3 = s3[unfolded line_u_register_Inr]
  have t3: "typedef_decl ok (Named ''size_t'') ''u_register_t'' b = Inr c"
    by (rule conjunct2[OF l3])
  have u3: "\<forall>t \<in> set [''typedef'', ''size_t'', ''u_register_t'']. t \<notin> macros m"
    using conjunct1[OF l3] unfolding mb .
  have t4: "ifndef ''_CAP_IOCTL_T_DECLARED''
           [ define_macro ''_CAP_IOCTL_T_DECLARED'',
             typedef_decl ok (Base CULong) ''cap_ioctl_t'' ] c = Inr d"
    using s4
    by (auto simp: ifndef_def seq_Cons_Inr seq_single line_cap_ioctl_Inr simp del: seq.simps
        split: if_splits)
  have t5: "ifndef ''_CAP_RIGHTS_T_DECLARED''
           [ define_macro ''_CAP_RIGHTS_T_DECLARED'',
             struct_fwd ''cap_rights'',
             typedef_decl ok (StructT ''cap_rights'') ''cap_rights_t'' ] d = Inr s'"
    using s5
    by (auto simp: ifndef_def seq_Cons_Inr[of "define_macro ''_CAP_RIGHTS_T_DECLARED''"]
        seq_Cons_Inr[of line_struct_cap_rights] seq_Cons_Inr[of "struct_fwd ''cap_rights''"]
        seq_single line_struct_cap_rights_Inr line_cap_rights_Inr simp del: seq.simps
        split: if_splits)
  show "seq
       [ ifdef ''__linux__'' [ typedef_decl ok (Named ''uintptr_t'') ''__uintptr_t'' ],
         typedef_decl ok (Base CInt) ''__nl_item'',
         typedef_decl ok (Named ''size_t'') ''u_register_t'',
         ifndef ''_CAP_IOCTL_T_DECLARED''
           [ define_macro ''_CAP_IOCTL_T_DECLARED'',
             typedef_decl ok (Base CULong) ''cap_ioctl_t'' ],
         ifndef ''_CAP_RIGHTS_T_DECLARED''
           [ define_macro ''_CAP_RIGHTS_T_DECLARED'',
             struct_fwd ''cap_rights'',
             typedef_decl ok (StructT ''cap_rights'') ''cap_rights_t'' ] ] m = Inr s'"
    unfolding seq_Cons_Inr[of "ifdef ''__linux__'' [ typedef_decl ok (Named ''uintptr_t'') ''__uintptr_t'' ]"]
      seq_Cons_Inr[of "typedef_decl ok (Base CInt) ''__nl_item''"]
      seq_Cons_Inr[of "typedef_decl ok (Named ''size_t'') ''u_register_t''"]
      seq_Cons_Inr[of "ifndef ''_CAP_IOCTL_T_DECLARED''
           [ define_macro ''_CAP_IOCTL_T_DECLARED'',
             typedef_decl ok (Base CULong) ''cap_ioctl_t'' ]"]
      seq_single
    using t1 t2 t3 t4 t5 by blast
  show "\<forall>t \<in> set [''typedef'', ''int'', ''__nl_item'', ''size_t'', ''u_register_t'']. t \<notin> macros m"
    using u2 u3 by simp
  show "\<forall>t \<in> set [''typedef'', ''uintptr_t'', ''__uintptr_t'']. t \<notin> macros m"
    if l: "''__linux__'' \<in> macros m"
  proof -
    from s1 l have "line_uintptr ok m = Inr a"
      by (simp add: ifdef_def seq_single del: seq.simps)
    then show ?thesis unfolding line_uintptr_Inr by (rule conjunct1)
  qed
  have mc: "macros c = macros m"
    using typedef_decl_Inr(1)[OF t3] mb by simp
  show "\<forall>t \<in> set [''typedef'', ''unsigned'', ''long'', ''cap_ioctl_t'']. t \<notin> macros m"
    if g: "''_CAP_IOCTL_T_DECLARED'' \<notin> macros m"
  proof -
    from g mc have g': "''_CAP_IOCTL_T_DECLARED'' \<notin> macros c" by simp
    from s4 g' obtain x where x: "define_macro ''_CAP_IOCTL_T_DECLARED'' c = Inr x"
      and y: "line_cap_ioctl ok x = Inr d"
      by (auto simp: ifndef_def seq_Cons_Inr seq_single simp del: seq.simps)
    have mx: "macros x = insert ''_CAP_IOCTL_T_DECLARED'' (macros c)"
      by (rule define_macro_Inr(1)[OF x])
    note ly = y[unfolded line_cap_ioctl_Inr]
    have "\<forall>t \<in> set [''typedef'', ''unsigned'', ''long'', ''cap_ioctl_t'']. t \<notin> macros x"
      by (rule conjunct1[OF ly])
    then show ?thesis unfolding mx mc by simp
  qed
  have md: "macros d = macros m \<or> macros d = insert ''_CAP_IOCTL_T_DECLARED'' (macros m)"
  proof (cases "''_CAP_IOCTL_T_DECLARED'' \<in> macros c")
    case True
    with t4 have "d = c" by (simp add: ifndef_def)
    with mc show ?thesis by simp
  next
    case False
    with t4 obtain x where x: "define_macro ''_CAP_IOCTL_T_DECLARED'' c = Inr x"
      and y: "typedef_decl ok (Base CULong) ''cap_ioctl_t'' x = Inr d"
      by (auto simp: ifndef_def seq_Cons_Inr seq_single simp del: seq.simps)
    have "macros d = macros x" by (rule typedef_decl_Inr(1)[OF y])
    with define_macro_Inr(1)[OF x] mc show ?thesis by simp
  qed
  show "\<forall>t \<in> set [''struct'', ''cap_rights'', ''typedef'', ''struct'', ''cap_rights'',
                       ''cap_rights_t'']. t \<notin> macros m"
    if g: "''_CAP_RIGHTS_T_DECLARED'' \<notin> macros m"
  proof -
    from md g have g': "''_CAP_RIGHTS_T_DECLARED'' \<notin> macros d" by auto
    from md have sub: "macros m \<subseteq> macros d" by auto
    from s5 g' obtain x y where x: "define_macro ''_CAP_RIGHTS_T_DECLARED'' d = Inr x"
      and y: "line_struct_cap_rights x = Inr y"
      and z: "line_cap_rights ok y = Inr s'"
      by (auto simp: ifndef_def seq_Cons_Inr seq_single simp del: seq.simps)
    note ly = y[unfolded line_struct_cap_rights_Inr]
    note lz = z[unfolded line_cap_rights_Inr]
    have mx: "macros x = insert ''_CAP_RIGHTS_T_DECLARED'' (macros d)"
      by (rule define_macro_Inr(1)[OF x])
    have my: "macros y = macros x"
      by (rule struct_fwd_Inr(1)[OF conjunct2[OF ly]])
    have u: "\<forall>t \<in> set [''struct'', ''cap_rights'']. t \<notin> macros x"
      by (rule conjunct1[OF ly])
    have v: "\<forall>t \<in> set [''typedef'', ''struct'', ''cap_rights'', ''cap_rights_t'']. t \<notin> macros x"
      using conjunct1[OF lz] unfolding my .
    from u v sub show ?thesis unfolding mx by auto
  qed
qed

lemma include_next_Inr0:
  "include_next ext ok name content s = Inr m \<Longrightarrow> ext \<and> include_file ok name content s = Inr m"
  by (cases ext) (simp_all add: include_next_def)

lemma types_h_repeat: "this_file \<in> once s \<Longrightarrow> types_h p s = Inr s"
  by (simp add: types_h_def pragma_once_def)

lemma types_h_first_steps:
  assumes ok: "types_h p s = Inr s'" and first: "this_file \<notin> once s"
  shows "\<exists>sys std m1 m.
      sys_types_h p = Some sys \<and> stdint_h p = Some std \<and> include_next_ok p
    \<and> include_next (include_next_ok p) (typedef_redecl_ok p) ''sys/types.h'' (sys_types_h p)
         (s\<lparr>once := insert this_file (once s)\<rparr>) = Inr m1
    \<and> seq (map (exec_item (typedef_redecl_ok p)) sys) (s\<lparr>once := insert this_file (once s)\<rparr>) = Inr m1
    \<and> seq (map (exec_item (typedef_redecl_ok p)) std) m1 = Inr m
    \<and> (\<forall>t \<in> set [''typedef'', ''int'', ''__nl_item'', ''size_t'', ''u_register_t'']. t \<notin> macros m)
    \<and> seq
       [ ifdef ''__linux__'' [ typedef_decl (typedef_redecl_ok p) (Named ''uintptr_t'') ''__uintptr_t'' ],
         typedef_decl (typedef_redecl_ok p) (Base CInt) ''__nl_item'',
         typedef_decl (typedef_redecl_ok p) (Named ''size_t'') ''u_register_t'',
         ifndef ''_CAP_IOCTL_T_DECLARED''
           [ define_macro ''_CAP_IOCTL_T_DECLARED'',
             typedef_decl (typedef_redecl_ok p) (Base CULong) ''cap_ioctl_t'' ],
         ifndef ''_CAP_RIGHTS_T_DECLARED''
           [ define_macro ''_CAP_RIGHTS_T_DECLARED'',
             struct_fwd ''cap_rights'',
             typedef_decl (typedef_redecl_ok p) (StructT ''cap_rights'') ''cap_rights_t'' ] ] m = Inr s'"
proof -
  let ?s0 = "s\<lparr>once := insert this_file (once s)\<rparr>"
  from ok first obtain m1 m where
    a: "include_next (include_next_ok p) (typedef_redecl_ok p) ''sys/types.h'' (sys_types_h p) ?s0 = Inr m1"
    and b: "include_file (typedef_redecl_ok p) ''stdint.h'' (stdint_h p) m1 = Inr m"
    and c: "seq
       [ ifdef ''__linux__'' [ line_uintptr (typedef_redecl_ok p) ],
         line_nl_item (typedef_redecl_ok p),
         line_u_register (typedef_redecl_ok p),
         ifndef ''_CAP_IOCTL_T_DECLARED''
           [ define_macro ''_CAP_IOCTL_T_DECLARED'', line_cap_ioctl (typedef_redecl_ok p) ],
         ifndef ''_CAP_RIGHTS_T_DECLARED''
           [ define_macro ''_CAP_RIGHTS_T_DECLARED'',
             line_struct_cap_rights,
             line_cap_rights (typedef_redecl_ok p) ] ] m = Inr s'"
    unfolding types_h_def pragma_once_def
    by (auto simp: seq_Cons_Inr simp del: seq.simps)
  from a have ext: "include_next_ok p"
    by (auto simp: include_next_def split: if_splits)
  with a have a0: "include_file (typedef_redecl_ok p) ''sys/types.h'' (sys_types_h p) ?s0 = Inr m1"
    by (simp add: include_next_def)
  from a0 obtain sys where sys: "sys_types_h p = Some sys"
    by (auto simp: include_file_def split: option.splits)
  from b obtain std where std: "stdint_h p = Some std"
    by (auto simp: include_file_def split: option.splits)
  from a0 sys have a': "seq (map (exec_item (typedef_redecl_ok p)) sys) ?s0 = Inr m1"
    by (simp add: include_file_def)
  from b std have b': "seq (map (exec_item (typedef_redecl_ok p)) std) m1 = Inr m"
    by (simp add: include_file_def)
  note l = lines_as_written(1,2)[OF c]
  from sys std ext a a' b' l show ?thesis by blast
qed

lemma types_h_first:
  assumes ok: "types_h p s = Inr s'" and first: "this_file \<notin> once s"
  shows "\<exists>sys std. sys_types_h p = Some sys \<and> stdint_h p = Some std"
    and "macros s' = mid_macros p s \<union> {''_CAP_IOCTL_T_DECLARED'', ''_CAP_RIGHTS_T_DECLARED''}"
    and "once s' = insert this_file (once s)"
    and "emitted s' = emitted s @ decls_of (contents (sys_types_h p))
                       @ decls_of (contents (stdint_h p)) @ patch_decls (mid_macros p s)"
    and "dom (typedefs s') = dom (typedefs s) \<union> typedef_names (contents (sys_types_h p))
           \<union> typedef_names (contents (stdint_h p)) \<union> typedef_names (patch_decls (mid_macros p s))"
    and "typedefs s \<subseteq>\<^sub>m typedefs s'"
    and "dom (structs s') = dom (structs s) \<union> struct_tags (contents (sys_types_h p))
           \<union> struct_tags (contents (stdint_h p)) \<union> struct_tags (patch_decls (mid_macros p s))"
    and "typedefs s' ''__nl_item'' = Some (Base CInt)"
    and "''_CAP_IOCTL_T_DECLARED'' \<notin> mid_macros p s \<Longrightarrow> typedefs s' ''cap_ioctl_t'' = Some (Base CULong)"
    and "''_CAP_RIGHTS_T_DECLARED'' \<notin> mid_macros p s \<Longrightarrow>
           typedefs s' ''cap_rights_t'' = Some (StructT ''cap_rights'')"
    and "''_CAP_RIGHTS_T_DECLARED'' \<notin> mid_macros p s \<Longrightarrow>
           ''cap_rights'' \<notin> dom (structs s) \<union> struct_tags (contents (sys_types_h p))
               \<union> struct_tags (contents (stdint_h p)) \<Longrightarrow>
           structs s' ''cap_rights'' = Some Incomplete"
proof -
  let ?s0 = "s\<lparr>once := insert this_file (once s)\<rparr>"
  let ?ok = "typedef_redecl_ok p"
  from types_h_first_steps[OF ok first] obtain sys std m1 m where
    sys: "sys_types_h p = Some sys" and std: "stdint_h p = Some std"
    and a: "seq (map (exec_item ?ok) sys) ?s0 = Inr m1"
    and b: "seq (map (exec_item ?ok) std) m1 = Inr m"
    and c: "seq
       [ ifdef ''__linux__'' [ typedef_decl ?ok (Named ''uintptr_t'') ''__uintptr_t'' ],
         typedef_decl ?ok (Base CInt) ''__nl_item'',
         typedef_decl ?ok (Named ''size_t'') ''u_register_t'',
         ifndef ''_CAP_IOCTL_T_DECLARED''
           [ define_macro ''_CAP_IOCTL_T_DECLARED'',
             typedef_decl ?ok (Base CULong) ''cap_ioctl_t'' ],
         ifndef ''_CAP_RIGHTS_T_DECLARED''
           [ define_macro ''_CAP_RIGHTS_T_DECLARED'',
             struct_fwd ''cap_rights'',
             typedef_decl ?ok (StructT ''cap_rights'') ''cap_rights_t'' ] ] m = Inr s'"
    by blast
  note fa = exec_items_Inr[OF a]
  note fb = exec_items_Inr[OF b]
  note fc = patches_Inr[OF c]
  have cs: "contents (sys_types_h p) = sys" "contents (stdint_h p) = std"
    by (simp_all add: sys std contents_def)
  have mm: "macros m = mid_macros p s"
    using fa fb by (simp add: mid_macros_def cs)
  have em: "emitted m = emitted s @ decls_of sys @ decls_of std"
    using fa fb by simp
  have dm: "dom (typedefs m) = dom (typedefs s) \<union> typedef_names sys \<union> typedef_names std"
    using fa fb by simp
  have sm: "dom (structs m) = dom (structs s) \<union> struct_tags sys \<union> struct_tags std"
    using fa fb by simp
  have om: "once m = insert this_file (once s)"
    using fa fb by simp
  have le1: "typedefs s \<subseteq>\<^sub>m typedefs m1" using fa by simp
  have le2: "typedefs m1 \<subseteq>\<^sub>m typedefs m" using fb by blast
  show "\<exists>sys std. sys_types_h p = Some sys \<and> stdint_h p = Some std"
    using sys std by blast
  show "macros s' = mid_macros p s \<union> {''_CAP_IOCTL_T_DECLARED'', ''_CAP_RIGHTS_T_DECLARED''}"
    using fc(1) unfolding mm .
  show "once s' = insert this_file (once s)"
    using fc(2) om by simp
  show "emitted s' = emitted s @ decls_of (contents (sys_types_h p))
                       @ decls_of (contents (stdint_h p)) @ patch_decls (mid_macros p s)"
    using fc(3) unfolding mm em cs by simp
  show "dom (typedefs s') = dom (typedefs s) \<union> typedef_names (contents (sys_types_h p))
           \<union> typedef_names (contents (stdint_h p)) \<union> typedef_names (patch_decls (mid_macros p s))"
    using fc(4) unfolding mm dm cs .
  show "typedefs s \<subseteq>\<^sub>m typedefs s'"
    using le1 le2 fc(5) by (blast intro: map_le_trans)
  show "dom (structs s') = dom (structs s) \<union> struct_tags (contents (sys_types_h p))
           \<union> struct_tags (contents (stdint_h p)) \<union> struct_tags (patch_decls (mid_macros p s))"
    using fc(6) unfolding mm sm cs .
  show "typedefs s' ''__nl_item'' = Some (Base CInt)"
    by (rule fc(8))
  show "''_CAP_IOCTL_T_DECLARED'' \<notin> mid_macros p s \<Longrightarrow> typedefs s' ''cap_ioctl_t'' = Some (Base CULong)"
    using fc(9) unfolding mm .
  show "''_CAP_RIGHTS_T_DECLARED'' \<notin> mid_macros p s \<Longrightarrow>
           typedefs s' ''cap_rights_t'' = Some (StructT ''cap_rights'')"
    using fc(10) unfolding mm .
  show "structs s' ''cap_rights'' = Some Incomplete"
    if g: "''_CAP_RIGHTS_T_DECLARED'' \<notin> mid_macros p s"
    and n: "''cap_rights'' \<notin> dom (structs s) \<union> struct_tags (contents (sys_types_h p))
               \<union> struct_tags (contents (stdint_h p))"
  proof -
    from n have "''cap_rights'' \<notin> dom (structs m)" unfolding sm cs .
    then have "structs m ''cap_rights'' = None" by blast
    with fc(11) g show ?thesis unfolding mm by blast
  qed
qed

lemma types_h_first_names:
  assumes ok: "types_h p s = Inr s'" and first: "this_file \<notin> once s"
  shows "objects s' = objects s \<union> object_names (contents (sys_types_h p))
           \<union> object_names (contents (stdint_h p))"
    and "other_tags s' = other_tags s \<union> other_tag_names (contents (sys_types_h p))
           \<union> other_tag_names (contents (stdint_h p))"
    and "\<forall>t \<in> set [''typedef'', ''int'', ''__nl_item'', ''size_t'', ''u_register_t''].
           t \<notin> mid_macros p s"
    and "include_next_ok p"
    and "''_CAP_RIGHTS_T_DECLARED'' \<notin> mid_macros p s \<Longrightarrow> ''cap_rights'' \<notin> other_tags s'"
proof -
  let ?s0 = "s\<lparr>once := insert this_file (once s)\<rparr>"
  let ?ok = "typedef_redecl_ok p"
  from types_h_first_steps[OF ok first] obtain sys std m1 m where
    sys: "sys_types_h p = Some sys" and std: "stdint_h p = Some std" and ext: "include_next_ok p"
    and a: "seq (map (exec_item ?ok) sys) ?s0 = Inr m1"
    and b: "seq (map (exec_item ?ok) std) m1 = Inr m"
    and u: "\<forall>t \<in> set [''typedef'', ''int'', ''__nl_item'', ''size_t'', ''u_register_t'']. t \<notin> macros m"
    and c: "seq
       [ ifdef ''__linux__'' [ typedef_decl ?ok (Named ''uintptr_t'') ''__uintptr_t'' ],
         typedef_decl ?ok (Base CInt) ''__nl_item'',
         typedef_decl ?ok (Named ''size_t'') ''u_register_t'',
         ifndef ''_CAP_IOCTL_T_DECLARED''
           [ define_macro ''_CAP_IOCTL_T_DECLARED'',
             typedef_decl ?ok (Base CULong) ''cap_ioctl_t'' ],
         ifndef ''_CAP_RIGHTS_T_DECLARED''
           [ define_macro ''_CAP_RIGHTS_T_DECLARED'',
             struct_fwd ''cap_rights'',
             typedef_decl ?ok (StructT ''cap_rights'') ''cap_rights_t'' ] ] m = Inr s'"
    by blast
  have cs: "contents (sys_types_h p) = sys" "contents (stdint_h p) = std"
    by (simp_all add: sys std contents_def)
  note na = exec_items_names[OF a]
  note nb = exec_items_names[OF b]
  note nc = patches_names_kept[OF c]
  have ma: "macros m1 = macros ?s0 \<union> defines_of sys" using exec_items_Inr[OF a] by blast
  have mb: "macros m = macros m1 \<union> defines_of std" using exec_items_Inr[OF b] by blast
  have mm: "macros m = mid_macros p s"
    unfolding mb ma by (simp add: mid_macros_def cs)
  show "objects s' = objects s \<union> object_names (contents (sys_types_h p))
           \<union> object_names (contents (stdint_h p))"
    unfolding cs using na nb nc by simp
  show "other_tags s' = other_tags s \<union> other_tag_names (contents (sys_types_h p))
           \<union> other_tag_names (contents (stdint_h p))"
    unfolding cs using na nb nc by simp
  show "\<forall>t \<in> set [''typedef'', ''int'', ''__nl_item'', ''size_t'', ''u_register_t''].
           t \<notin> mid_macros p s"
    using u unfolding mm .
  show "include_next_ok p" by (rule ext)
  show "''_CAP_RIGHTS_T_DECLARED'' \<notin> mid_macros p s \<Longrightarrow> ''cap_rights'' \<notin> other_tags s'"
    using patches_Inr(12)[OF c] unfolding mm .
qed

lemma tokens_split:
  assumes "t \<in> set ((if a then A else []) @ B @ C @ (if b then D else []) @ (if c then E else []))"
  shows "(a \<and> t \<in> set A) \<or> t \<in> set B \<or> t \<in> set C \<or> (b \<and> t \<in> set D) \<or> (c \<and> t \<in> set E)"
  using assms by (auto split: if_splits)

text \<open>
  A first inclusion succeeds only where every declaration line that is read is read as
  written: none of its identifiers and keywords is a macro.
\<close>

lemma types_h_first_tokens:
  assumes ok: "types_h p s = Inr s'" and first: "this_file \<notin> once s"
  shows "\<forall>t \<in> set (active_tokens (mid_macros p s)). t \<notin> mid_macros p s"
proof -
  let ?s0 = "s\<lparr>once := insert this_file (once s)\<rparr>"
  let ?M = "mid_macros p s"
  from ok first obtain m1 m where
    a: "include_next (include_next_ok p) (typedef_redecl_ok p) ''sys/types.h'' (sys_types_h p) ?s0 = Inr m1"
    and b: "include_file (typedef_redecl_ok p) ''stdint.h'' (stdint_h p) m1 = Inr m"
    and c: "seq
       [ ifdef ''__linux__'' [ line_uintptr (typedef_redecl_ok p) ],
         line_nl_item (typedef_redecl_ok p),
         line_u_register (typedef_redecl_ok p),
         ifndef ''_CAP_IOCTL_T_DECLARED''
           [ define_macro ''_CAP_IOCTL_T_DECLARED'', line_cap_ioctl (typedef_redecl_ok p) ],
         ifndef ''_CAP_RIGHTS_T_DECLARED''
           [ define_macro ''_CAP_RIGHTS_T_DECLARED'',
             line_struct_cap_rights,
             line_cap_rights (typedef_redecl_ok p) ] ] m = Inr s'"
    unfolding types_h_def pragma_once_def
    by (auto simp: seq_Cons_Inr simp del: seq.simps)
  note a0 = conjunct2[OF include_next_Inr0[OF a]]
  from a0 obtain sys where sys: "sys_types_h p = Some sys"
    by (auto simp: include_file_def split: option.splits)
  from b obtain std where std: "stdint_h p = Some std"
    by (auto simp: include_file_def split: option.splits)
  from a0 sys have a': "seq (map (exec_item (typedef_redecl_ok p)) sys) ?s0 = Inr m1"
    by (simp add: include_file_def)
  from b std have b': "seq (map (exec_item (typedef_redecl_ok p)) std) m1 = Inr m"
    by (simp add: include_file_def)
  have ma: "macros m1 = macros ?s0 \<union> defines_of sys" using exec_items_Inr[OF a'] by blast
  have mb: "macros m = macros m1 \<union> defines_of std" using exec_items_Inr[OF b'] by blast
  have mm: "macros m = ?M"
    unfolding mb ma by (simp add: mid_macros_def contents_def sys std)
  note l2 = lines_as_written(2)[OF c, unfolded mm]
  note l3 = lines_as_written(3)[OF c, unfolded mm]
  note l4 = lines_as_written(4)[OF c, unfolded mm]
  note l5 = lines_as_written(5)[OF c, unfolded mm]
  have l2a: "\<forall>t \<in> set [''typedef'', ''int'', ''__nl_item'']. t \<notin> ?M"
    using l2 by simp
  have l2b: "\<forall>t \<in> set [''typedef'', ''size_t'', ''u_register_t'']. t \<notin> ?M"
    using l2 by simp
  show ?thesis
  proof
    fix t
    assume t: "t \<in> set (active_tokens ?M)"
    note u = t[unfolded active_tokens_def]
    from tokens_split[OF u] show "t \<notin> ?M"
    proof (elim disjE conjE)
      assume g: "''__linux__'' \<in> ?M"
        and m: "t \<in> set [''typedef'', ''uintptr_t'', ''__uintptr_t'']"
      show ?thesis by (rule bspec[OF l3[OF g] m])
    next
      assume m: "t \<in> set [''typedef'', ''int'', ''__nl_item'']"
      show ?thesis by (rule bspec[OF l2a m])
    next
      assume m: "t \<in> set [''typedef'', ''size_t'', ''u_register_t'']"
      show ?thesis by (rule bspec[OF l2b m])
    next
      assume g: "''_CAP_IOCTL_T_DECLARED'' \<notin> ?M"
        and m: "t \<in> set [''typedef'', ''unsigned'', ''long'', ''cap_ioctl_t'']"
      show ?thesis by (rule bspec[OF l4[OF g] m])
    next
      assume g: "''_CAP_RIGHTS_T_DECLARED'' \<notin> ?M"
        and m: "t \<in> set [''struct'', ''cap_rights'', ''typedef'', ''struct'', ''cap_rights'',
                       ''cap_rights_t'']"
      show ?thesis by (rule bspec[OF l5[OF g] m])
    qed
  qed
qed

section \<open>Repeated inclusion\<close>

text \<open>
  C1. Including the header a second (or any further) time in a translation unit emits no
  declaration and raises no diagnostic: once an inclusion has succeeded, a further
  inclusion returns the translation unit as it is, so repeated inclusion is the same as a
  single one.
\<close>

theorem types_h_idempotent:
  assumes "types_h p s = Inr s'"
  shows "types_h p s' = Inr s'"
proof (cases "this_file \<in> once s")
  case True
  with assms have "s' = s" by (simp add: types_h_repeat)
  with True show ?thesis by (simp add: types_h_repeat)
next
  case False
  from types_h_first(3)[OF assms False] have "this_file \<in> once s'" by simp
  then show ?thesis by (rule types_h_repeat)
qed

theorem types_h_idempotent_witness:
  "\<not> isl (types_h posix_host linux_tu)
   \<and> types_h posix_host (projr (types_h posix_host linux_tu)) = types_h posix_host linux_tu"
proof -
  have ok: "\<not> isl (types_h posix_host linux_tu)"
    by (simp add: ex_defs sem_defs)
  then have h: "types_h posix_host linux_tu = Inr (projr (types_h posix_host linux_tu))"
    by (cases "types_h posix_host linux_tu") simp_all
  from types_h_idempotent[OF h] ok h show ?thesis by simp
qed

section \<open>The five symbols\<close>

lemma count_decl_append: "count_decl n (xs @ ys) = count_decl n xs + count_decl n ys"
  by (simp add: count_decl_def)

lemma count_decl_decls_of: "count_decl n (decls_of xs) = count_decl n xs"
proof (induction xs)
  case Nil
  then show ?case by (simp add: decls_of_def)
next
  case (Cons i xs)
  then show ?case by (cases i) (simp_all add: count_decl_def decls_of_def)
qed

lemma own_decls_first:
  assumes "types_h p s = Inr s'" and "this_file \<notin> once s"
  shows "own_decls p s s' = patch_decls (mid_macros p s)"
  using types_h_first(4)[OF assms] by (simp add: own_decls_def)

lemma count_decl_patch_le:
  "n \<in> set five_names \<Longrightarrow> count_decl n (patch_decls M) \<le> 1"
  by (auto simp: five_names_def patch_decls_def count_decl_def)

lemma count_decl_patch_full:
  assumes "''__linux__'' \<in> M" and "''_CAP_IOCTL_T_DECLARED'' \<notin> M" and "''_CAP_RIGHTS_T_DECLARED'' \<notin> M"
    and "n \<in> set five_names"
  shows "count_decl n (patch_decls M) = 1"
  using assms by (auto simp: five_names_def patch_decls_def count_decl_def)

lemma typedef_names_patch:
  "typedef_names (patch_decls M) =
     {''__nl_item'', ''u_register_t''}
     \<union> (if ''__linux__'' \<in> M then {''__uintptr_t''} else {})
     \<union> (if ''_CAP_IOCTL_T_DECLARED'' \<notin> M then {''cap_ioctl_t''} else {})
     \<union> (if ''_CAP_RIGHTS_T_DECLARED'' \<notin> M then {''cap_rights_t''} else {})"
  by (auto simp: patch_decls_def)

text \<open>
  C2, as the code has it. After a successful first inclusion \<open>__nl_item\<close> and
  \<open>u_register_t\<close> are defined; \<open>__uintptr_t\<close> is defined where \<^verbatim>\<open>__linux__\<close> is
  defined; \<open>cap_ioctl_t\<close> and \<open>cap_rights_t\<close> are defined where their guard macro is not
  yet defined when the header tests it. The header itself declares none of the five names
  more than once. Where \<^verbatim>\<open>__linux__\<close> is defined, neither guard macro is defined, and
  none of the five names has been declared before the inclusion or by the two platform
  headers, all five are defined and each is declared exactly once in the translation unit.
\<close>

theorem five_symbols_after_first_inclusion:
  assumes ok: "types_h p s = Inr s'" and first: "this_file \<notin> once s"
  shows "typedefs s' ''__nl_item'' \<noteq> None \<and> typedefs s' ''u_register_t'' \<noteq> None
     \<and> (''__linux__'' \<in> macros s' \<longrightarrow> typedefs s' ''__uintptr_t'' \<noteq> None)
     \<and> (''_CAP_IOCTL_T_DECLARED'' \<notin> mid_macros p s \<longrightarrow> typedefs s' ''cap_ioctl_t'' \<noteq> None)
     \<and> (''_CAP_RIGHTS_T_DECLARED'' \<notin> mid_macros p s \<longrightarrow> typedefs s' ''cap_rights_t'' \<noteq> None)
     \<and> (\<forall>n \<in> set five_names. count_decl n (own_decls p s s') \<le> 1)
     \<and> (''__linux__'' \<in> macros s
          \<and> ''_CAP_IOCTL_T_DECLARED'' \<notin> mid_macros p s \<and> ''_CAP_RIGHTS_T_DECLARED'' \<notin> mid_macros p s
          \<and> (\<forall>n \<in> set five_names. count_decl n (emitted s) = 0
                \<and> count_decl n (contents (sys_types_h p)) = 0
                \<and> count_decl n (contents (stdint_h p)) = 0)
        \<longrightarrow> (\<forall>n \<in> set five_names. typedefs s' n \<noteq> None \<and> count_decl n (emitted s') = 1))"
proof -
  let ?M = "mid_macros p s"
  note f = types_h_first[OF ok first]
  have names: "typedef_names (patch_decls ?M) \<subseteq> dom (typedefs s')"
    using f(5) by blast
  have lin: "''__linux__'' \<in> macros s' \<longleftrightarrow> ''__linux__'' \<in> ?M"
    using f(2) by simp
  have c1: "typedefs s' ''__nl_item'' \<noteq> None \<and> typedefs s' ''u_register_t'' \<noteq> None"
    using names unfolding typedef_names_patch by auto
  have c2: "''__linux__'' \<in> macros s' \<longrightarrow> typedefs s' ''__uintptr_t'' \<noteq> None"
    using names unfolding typedef_names_patch lin by auto
  have c3: "''_CAP_IOCTL_T_DECLARED'' \<notin> ?M \<longrightarrow> typedefs s' ''cap_ioctl_t'' \<noteq> None"
    using f(9) by simp
  have c4: "''_CAP_RIGHTS_T_DECLARED'' \<notin> ?M \<longrightarrow> typedefs s' ''cap_rights_t'' \<noteq> None"
    using f(10) by simp
  have c5: "\<forall>n \<in> set five_names. count_decl n (own_decls p s s') \<le> 1"
    unfolding own_decls_first[OF ok first] by (blast intro: count_decl_patch_le)
  have c6: "\<forall>n \<in> set five_names. typedefs s' n \<noteq> None \<and> count_decl n (emitted s') = 1"
    if l: "''__linux__'' \<in> macros s"
      and g1: "''_CAP_IOCTL_T_DECLARED'' \<notin> ?M" and g2: "''_CAP_RIGHTS_T_DECLARED'' \<notin> ?M"
      and z: "\<forall>n \<in> set five_names. count_decl n (emitted s) = 0
                \<and> count_decl n (contents (sys_types_h p)) = 0
                \<and> count_decl n (contents (stdint_h p)) = 0"
  proof
    fix n assume n: "n \<in> set five_names"
    from l have l': "''__linux__'' \<in> ?M" by (simp add: mid_macros_def)
    have "n \<in> typedef_names (patch_decls ?M)"
      using n l' g1 g2 unfolding typedef_names_patch by (auto simp: five_names_def)
    with names have d: "typedefs s' n \<noteq> None" by blast
    have "count_decl n (emitted s') = count_decl n (patch_decls ?M)"
      unfolding f(4) using z n by (simp add: count_decl_append count_decl_decls_of)
    also have "\<dots> = 1" by (rule count_decl_patch_full[OF l' g1 g2 n])
    finally show "typedefs s' n \<noteq> None \<and> count_decl n (emitted s') = 1" using d by simp
  qed
  from c1 c2 c3 c4 c5 c6 show ?thesis by blast
qed

theorem five_symbols_after_first_inclusion_witness:
  "\<not> isl (types_h posix_host linux_tu) \<and> this_file \<notin> once linux_tu
   \<and> ''__linux__'' \<in> macros linux_tu
   \<and> ''_CAP_IOCTL_T_DECLARED'' \<notin> mid_macros posix_host linux_tu
   \<and> ''_CAP_RIGHTS_T_DECLARED'' \<notin> mid_macros posix_host linux_tu
   \<and> typedefs (projr (types_h posix_host linux_tu)) ''__uintptr_t'' \<noteq> None
   \<and> typedefs (projr (types_h posix_host linux_tu)) ''__nl_item'' \<noteq> None
   \<and> typedefs (projr (types_h posix_host linux_tu)) ''u_register_t'' \<noteq> None
   \<and> typedefs (projr (types_h posix_host linux_tu)) ''cap_ioctl_t'' \<noteq> None
   \<and> typedefs (projr (types_h posix_host linux_tu)) ''cap_rights_t'' \<noteq> None
   \<and> count_decl ''__uintptr_t'' (emitted (projr (types_h posix_host linux_tu))) = 1
   \<and> count_decl ''__nl_item'' (emitted (projr (types_h posix_host linux_tu))) = 1
   \<and> count_decl ''u_register_t'' (emitted (projr (types_h posix_host linux_tu))) = 1
   \<and> count_decl ''cap_ioctl_t'' (emitted (projr (types_h posix_host linux_tu))) = 1
   \<and> count_decl ''cap_rights_t'' (emitted (projr (types_h posix_host linux_tu))) = 1"
proof -
  define s' where "s' = projr (types_h posix_host linux_tu)"
  have ok: "\<not> isl (types_h posix_host linux_tu)"
    by (simp add: ex_defs sem_defs)
  then have h: "types_h posix_host linux_tu = Inr s'"
    unfolding s'_def by (cases "types_h posix_host linux_tu") simp_all
  have first: "this_file \<notin> once linux_tu"
    by (simp add: linux_tu_def)
  have l: "''__linux__'' \<in> macros linux_tu"
    by (simp add: linux_tu_def)
  have g1: "''_CAP_IOCTL_T_DECLARED'' \<notin> mid_macros posix_host linux_tu"
    by (simp add: mid_macros_def contents_def ex_defs)
  have g2: "''_CAP_RIGHTS_T_DECLARED'' \<notin> mid_macros posix_host linux_tu"
    by (simp add: mid_macros_def contents_def ex_defs)
  have z: "\<forall>n \<in> set five_names. count_decl n (emitted linux_tu) = 0
                \<and> count_decl n (contents (sys_types_h posix_host)) = 0
                \<and> count_decl n (contents (stdint_h posix_host)) = 0"
    by (simp add: five_names_def count_decl_def contents_def ex_defs)
  from five_symbols_after_first_inclusion[OF h first] l g1 g2 z
  have "\<forall>n \<in> set five_names. typedefs s' n \<noteq> None \<and> count_decl n (emitted s') = 1"
    by blast
  then have "typedefs s' ''__uintptr_t'' \<noteq> None
   \<and> typedefs s' ''__nl_item'' \<noteq> None
   \<and> typedefs s' ''u_register_t'' \<noteq> None
   \<and> typedefs s' ''cap_ioctl_t'' \<noteq> None
   \<and> typedefs s' ''cap_rights_t'' \<noteq> None
   \<and> count_decl ''__uintptr_t'' (emitted s') = 1
   \<and> count_decl ''__nl_item'' (emitted s') = 1
   \<and> count_decl ''u_register_t'' (emitted s') = 1
   \<and> count_decl ''cap_ioctl_t'' (emitted s') = 1
   \<and> count_decl ''cap_rights_t'' (emitted s') = 1"
    by (simp add: five_names_def)
  with ok first l g1 g2 show ?thesis
    unfolding s'_def by blast
qed

text \<open>
  The claim as written, for every platform, fails off Linux: on a host that does not
  predefine \<^verbatim>\<open>__linux__\<close> and whose headers do not declare \<open>__uintptr_t\<close>, the
  inclusion succeeds and \<open>__uintptr_t\<close> is still undefined.
\<close>

theorem uintptr_t_absent_off_linux:
  "this_file \<notin> once mac_tu \<and> \<not> isl (types_h posix_host mac_tu)
   \<and> typedefs (projr (types_h posix_host mac_tu)) ''__uintptr_t'' = None"
  by (simp add: ex_defs sem_defs)

section \<open>Which declarations are conditional\<close>

text \<open>
  C3, as the code has it. Of the declarations the header adds, only \<open>cap_ioctl_t\<close> and
  \<open>cap_rights_t\<close> are skipped when already announced, through their guard macros.
  \<open>__uintptr_t\<close> is emitted exactly when \<^verbatim>\<open>__linux__\<close> is defined, and \<open>__nl_item\<close> and
  \<open>u_register_t\<close> are emitted on every successful first inclusion, whether or not the
  names are already defined.
\<close>

theorem own_declarations_by_condition:
  assumes ok: "types_h p s = Inr s'" and first: "this_file \<notin> once s"
  shows "Typedef (Base CInt) ''__nl_item'' \<in> set (own_decls p s s')
     \<and> Typedef (Named ''size_t'') ''u_register_t'' \<in> set (own_decls p s s')
     \<and> (Typedef (Named ''uintptr_t'') ''__uintptr_t'' \<in> set (own_decls p s s')
          \<longleftrightarrow> ''__linux__'' \<in> mid_macros p s)
     \<and> (Typedef (Base CULong) ''cap_ioctl_t'' \<in> set (own_decls p s s')
          \<longleftrightarrow> ''_CAP_IOCTL_T_DECLARED'' \<notin> mid_macros p s)
     \<and> (Typedef (StructT ''cap_rights'') ''cap_rights_t'' \<in> set (own_decls p s s')
          \<longleftrightarrow> ''_CAP_RIGHTS_T_DECLARED'' \<notin> mid_macros p s)
     \<and> own_decls p s s' = patch_decls (mid_macros p s)"
  unfolding own_decls_first[OF ok first]
  by (simp add: patch_decls_def)

theorem own_declarations_by_condition_witness:
  "\<not> isl (types_h posix_host linux_tu) \<and> this_file \<notin> once linux_tu
   \<and> own_decls posix_host linux_tu (projr (types_h posix_host linux_tu)) =
       [Typedef (Named ''uintptr_t'') ''__uintptr_t'',
        Typedef (Base CInt) ''__nl_item'',
        Typedef (Named ''size_t'') ''u_register_t'',
        Typedef (Base CULong) ''cap_ioctl_t'',
        StructFwd ''cap_rights'',
        Typedef (StructT ''cap_rights'') ''cap_rights_t'']"
proof -
  define s' where "s' = projr (types_h posix_host linux_tu)"
  have ok: "\<not> isl (types_h posix_host linux_tu)"
    by (simp add: ex_defs sem_defs)
  then have h: "types_h posix_host linux_tu = Inr s'"
    unfolding s'_def by (cases "types_h posix_host linux_tu") simp_all
  have first: "this_file \<notin> once linux_tu"
    by (simp add: linux_tu_def)
  have M: "mid_macros posix_host linux_tu = {''__linux__''}"
    by (simp add: mid_macros_def contents_def ex_defs)
  from own_declarations_by_condition[OF h first]
  have "own_decls posix_host linux_tu s' = patch_decls (mid_macros posix_host linux_tu)"
    by blast
  then have "own_decls posix_host linux_tu s' =
       [Typedef (Named ''uintptr_t'') ''__uintptr_t'',
        Typedef (Base CInt) ''__nl_item'',
        Typedef (Named ''size_t'') ''u_register_t'',
        Typedef (Base CULong) ''cap_ioctl_t'',
        StructFwd ''cap_rights'',
        Typedef (StructT ''cap_rights'') ''cap_rights_t'']"
    unfolding M by (simp add: patch_decls_def)
  with ok first show ?thesis unfolding s'_def by blast
qed

text \<open>
  The claim as written fails where the platform already declares \<open>__nl_item\<close>: the header
  declares it once more.
\<close>

theorem nl_item_declared_again:
  "this_file \<notin> once bsd_tu \<and> \<not> isl (types_h bsd_host bsd_tu)
   \<and> count_decl ''__nl_item'' (contents (sys_types_h bsd_host)) = 1
   \<and> count_decl ''__nl_item'' (own_decls bsd_host bsd_tu (projr (types_h bsd_host bsd_tu))) = 1
   \<and> count_decl ''__nl_item'' (emitted (projr (types_h bsd_host bsd_tu))) = 2"
  by (simp add: ex_defs sem_defs own_decls_def count_decl_def contents_def decls_of_def)

section \<open>The symbols made visible\<close>

lemma typedef_names_patch_five: "typedef_names (patch_decls M) \<subseteq> set five_names"
  unfolding typedef_names_patch by (auto simp: five_names_def)

lemma struct_tags_patch:
  "struct_tags (patch_decls M) = (if ''_CAP_RIGHTS_T_DECLARED'' \<notin> M then {''cap_rights''} else {})"
  by (auto simp: patch_decls_def)

text \<open>
  C4, as the code has it. Where no macro rewrites the header's declaration lines, the
  typedef names visible after a successful first inclusion are exactly those visible
  before it, those declared by the platform's \<^verbatim>\<open>sys/types.h\<close>, those declared by
  \<^verbatim>\<open>stdint.h\<close>, and those the header declares itself: always \<open>__nl_item\<close> and
  \<open>u_register_t\<close>, \<open>__uintptr_t\<close> exactly when \<^verbatim>\<open>__linux__\<close> is defined, \<open>cap_ioctl_t\<close>
  and \<open>cap_rights_t\<close> exactly when their guard macro is not yet defined. Besides the
  macros of the two platform headers the header defines exactly its two guard macros;
  besides their struct tags it introduces the tag \<open>cap_rights\<close>, exactly when it declares
  \<open>cap_rights_t\<close>; and it adds no ordinary identifier and no union or enumeration tag.
  A successful inclusion is one in which the lines are read as written: no identifier or
  keyword of a declaration line that is read is then a macro.
\<close>

theorem visible_symbols:
  assumes ok: "types_h p s = Inr s'" and first: "this_file \<notin> once s"
  shows "dom (typedefs s') =
           dom (typedefs s) \<union> typedef_names (contents (sys_types_h p))
             \<union> typedef_names (contents (stdint_h p)) \<union> typedef_names (own_decls p s s')
     \<and> typedef_names (own_decls p s s') =
           {''__nl_item'', ''u_register_t''}
             \<union> (if ''__linux__'' \<in> mid_macros p s then {''__uintptr_t''} else {})
             \<union> (if ''_CAP_IOCTL_T_DECLARED'' \<notin> mid_macros p s then {''cap_ioctl_t''} else {})
             \<union> (if ''_CAP_RIGHTS_T_DECLARED'' \<notin> mid_macros p s then {''cap_rights_t''} else {})
     \<and> {''__nl_item'', ''u_register_t''} \<subseteq> typedef_names (own_decls p s s')
     \<and> typedef_names (own_decls p s s') \<subseteq> set five_names
     \<and> macros s' =
           macros s \<union> defines_of (contents (sys_types_h p)) \<union> defines_of (contents (stdint_h p))
             \<union> {''_CAP_IOCTL_T_DECLARED'', ''_CAP_RIGHTS_T_DECLARED''}
     \<and> dom (structs s') =
           dom (structs s) \<union> struct_tags (contents (sys_types_h p))
             \<union> struct_tags (contents (stdint_h p))
             \<union> (if ''_CAP_RIGHTS_T_DECLARED'' \<notin> mid_macros p s then {''cap_rights''} else {})
     \<and> objects s' =
           objects s \<union> object_names (contents (sys_types_h p))
             \<union> object_names (contents (stdint_h p))
     \<and> other_tags s' =
           other_tags s \<union> other_tag_names (contents (sys_types_h p))
             \<union> other_tag_names (contents (stdint_h p))
     \<and> (\<forall>t \<in> set (active_tokens (mid_macros p s)). t \<notin> mid_macros p s)"
proof -
  note f = types_h_first[OF ok first]
  note n = types_h_first_names[OF ok first]
  note w = types_h_first_tokens[OF ok first]
  note o = own_decls_first[OF ok first]
  have a: "dom (typedefs s') =
           dom (typedefs s) \<union> typedef_names (contents (sys_types_h p))
             \<union> typedef_names (contents (stdint_h p)) \<union> typedef_names (own_decls p s s')"
    unfolding o by (rule f(5))
  have a': "typedef_names (own_decls p s s') =
           {''__nl_item'', ''u_register_t''}
             \<union> (if ''__linux__'' \<in> mid_macros p s then {''__uintptr_t''} else {})
             \<union> (if ''_CAP_IOCTL_T_DECLARED'' \<notin> mid_macros p s then {''cap_ioctl_t''} else {})
             \<union> (if ''_CAP_RIGHTS_T_DECLARED'' \<notin> mid_macros p s then {''cap_rights_t''} else {})"
    unfolding o by (rule typedef_names_patch)
  have b: "{''__nl_item'', ''u_register_t''} \<subseteq> typedef_names (own_decls p s s')"
    unfolding o typedef_names_patch by simp
  have c: "typedef_names (own_decls p s s') \<subseteq> set five_names"
    unfolding o by (rule typedef_names_patch_five)
  have d: "macros s' =
           macros s \<union> defines_of (contents (sys_types_h p)) \<union> defines_of (contents (stdint_h p))
             \<union> {''_CAP_IOCTL_T_DECLARED'', ''_CAP_RIGHTS_T_DECLARED''}"
    using f(2) by (simp add: mid_macros_def)
  have e: "dom (structs s') =
           dom (structs s) \<union> struct_tags (contents (sys_types_h p))
             \<union> struct_tags (contents (stdint_h p))
             \<union> (if ''_CAP_RIGHTS_T_DECLARED'' \<notin> mid_macros p s then {''cap_rights''} else {})"
    using f(7) unfolding struct_tags_patch .
  show ?thesis
    by (intro conjI) (rule a a' b c d e n(1) n(2) w)+
qed

theorem visible_symbols_witness:
  "\<not> isl (types_h posix_host linux_tu) \<and> this_file \<notin> once linux_tu
   \<and> dom (typedefs (projr (types_h posix_host linux_tu))) =
       {''size_t'', ''pid_t'', ''uint32_t'', ''uintptr_t'',
        ''__uintptr_t'', ''__nl_item'', ''u_register_t'', ''cap_ioctl_t'', ''cap_rights_t''}
   \<and> macros (projr (types_h posix_host linux_tu)) =
       {''__linux__'', ''_CAP_IOCTL_T_DECLARED'', ''_CAP_RIGHTS_T_DECLARED''}
   \<and> dom (structs (projr (types_h posix_host linux_tu))) = {''cap_rights''}
   \<and> objects (projr (types_h posix_host linux_tu)) = {}
   \<and> other_tags (projr (types_h posix_host linux_tu)) = {}
   \<and> ''typedef'' \<notin> mid_macros posix_host linux_tu
   \<and> ''int'' \<notin> mid_macros posix_host linux_tu
   \<and> ''__nl_item'' \<notin> mid_macros posix_host linux_tu
   \<and> ''size_t'' \<notin> mid_macros posix_host linux_tu
   \<and> ''u_register_t'' \<notin> mid_macros posix_host linux_tu"
proof -
  define s' where "s' = projr (types_h posix_host linux_tu)"
  have ok: "\<not> isl (types_h posix_host linux_tu)"
    by (simp add: ex_defs sem_defs)
  then have h: "types_h posix_host linux_tu = Inr s'"
    unfolding s'_def by (cases "types_h posix_host linux_tu") simp_all
  have first: "this_file \<notin> once linux_tu"
    by (simp add: linux_tu_def)
  have M: "mid_macros posix_host linux_tu = {''__linux__''}"
    by (simp add: mid_macros_def contents_def ex_defs)
  note v = visible_symbols[OF h first, unfolded M]
  have o: "typedef_names (own_decls posix_host linux_tu s') =
      {''__nl_item'', ''u_register_t'', ''__uintptr_t'', ''cap_ioctl_t'', ''cap_rights_t''}"
    using conjunct1[OF conjunct2[OF v]] by auto
  have a: "dom (typedefs s') =
       {''size_t'', ''pid_t'', ''uint32_t'', ''uintptr_t'',
        ''__uintptr_t'', ''__nl_item'', ''u_register_t'', ''cap_ioctl_t'', ''cap_rights_t''}"
    using conjunct1[OF v] unfolding o by (auto simp: contents_def ex_defs)
  from v have "macros s' =
           macros linux_tu \<union> defines_of (contents (sys_types_h posix_host))
             \<union> defines_of (contents (stdint_h posix_host))
             \<union> {''_CAP_IOCTL_T_DECLARED'', ''_CAP_RIGHTS_T_DECLARED''}"
    by (elim conjE)
  then have b: "macros s' = {''__linux__'', ''_CAP_IOCTL_T_DECLARED'', ''_CAP_RIGHTS_T_DECLARED''}"
    by (auto simp: contents_def ex_defs)
  from v have "dom (structs s') =
           dom (structs linux_tu) \<union> struct_tags (contents (sys_types_h posix_host))
             \<union> struct_tags (contents (stdint_h posix_host))
             \<union> (if ''_CAP_RIGHTS_T_DECLARED'' \<notin> {''__linux__''} then {''cap_rights''} else {})"
    by (elim conjE)
  then have c: "dom (structs s') = {''cap_rights''}"
    by (simp add: contents_def ex_defs)
  from v have "objects s' =
           objects linux_tu \<union> object_names (contents (sys_types_h posix_host))
             \<union> object_names (contents (stdint_h posix_host))"
    by (elim conjE)
  then have d: "objects s' = {}"
    by (simp add: contents_def ex_defs)
  from v have "other_tags s' =
           other_tags linux_tu \<union> other_tag_names (contents (sys_types_h posix_host))
             \<union> other_tag_names (contents (stdint_h posix_host))"
    by (elim conjE)
  then have e: "other_tags s' = {}"
    by (simp add: contents_def ex_defs)
  from v have "\<forall>t \<in> set (active_tokens {''__linux__''}). t \<notin> {''__linux__''}"
    by (elim conjE)
  then have u: "''typedef'' \<notin> mid_macros posix_host linux_tu
   \<and> ''int'' \<notin> mid_macros posix_host linux_tu
   \<and> ''__nl_item'' \<notin> mid_macros posix_host linux_tu
   \<and> ''size_t'' \<notin> mid_macros posix_host linux_tu
   \<and> ''u_register_t'' \<notin> mid_macros posix_host linux_tu"
    unfolding M by (simp add: active_tokens_def)
  from ok first a b c d e u show ?thesis
    unfolding s'_def by (elim conjE) (intro conjI, assumption+)
qed

text \<open>
  The claim as written leaves out \<^verbatim>\<open>stdint.h\<close>: \<open>uint32_t\<close> is visible after the
  inclusion although it is none of the five names and \<^verbatim>\<open>sys/types.h\<close> does not declare it.
\<close>

theorem stdint_names_become_visible:
  "this_file \<notin> once linux_tu \<and> \<not> isl (types_h posix_host linux_tu)
   \<and> typedefs linux_tu ''uint32_t'' = None
   \<and> typedefs (projr (types_h posix_host linux_tu)) ''uint32_t'' \<noteq> None
   \<and> ''uint32_t'' \<notin> typedef_names (contents (sys_types_h posix_host))
   \<and> ''uint32_t'' \<notin> set five_names"
  by (simp add: ex_defs sem_defs contents_def five_names_def)

section \<open>Failure modes\<close>

lemma seq_Cons_Inl:
  "seq (d # ds) s = Inl e \<longleftrightarrow> d s = Inl e \<or> (\<exists>m. d s = Inr m \<and> seq ds m = Inl e)"
  by (auto split: sum.splits)

lemma typedef_decl_Named_Inl:
  assumes "typedef_decl ok (Named x) n s = Inl e"
  shows "(e = UnknownType x \<and> typedefs s x = None)
       \<or> (e = Redefinition n \<and> n \<in> dom (typedefs s) \<union> objects s)"
  using assms
  by (auto simp: typedef_decl_def resolve_def split: sum.splits option.splits if_splits)

lemma typedef_decl_Base_Inl:
  assumes "typedef_decl ok (Base b) n s = Inl e"
  shows "e = Redefinition n \<and> n \<in> dom (typedefs s) \<union> objects s"
  using assms
  by (auto simp: typedef_decl_def resolve_def split: sum.splits option.splits if_splits)

lemma typedef_decl_Struct_Inl:
  assumes "typedef_decl ok (StructT g) n s = Inl e"
  shows "(e = TagMismatch g \<and> g \<in> other_tags s)
       \<or> (e = Redefinition n \<and> n \<in> dom (typedefs s) \<union> objects s)"
  using assms
  by (auto simp: typedef_decl_def resolve_def split: sum.splits option.splits if_splits)

lemma struct_fwd_Inl:
  "struct_fwd g s = Inl e \<Longrightarrow> e = TagMismatch g \<and> g \<in> other_tags s"
  by (auto simp: struct_fwd_def split: if_splits)

lemma typedef_decl_dom:
  "typedef_decl ok t n s = Inr s' \<Longrightarrow> dom (typedefs s') = insert n (dom (typedefs s))"
  by (drule typedef_decl_facts) (elim conjE)

lemma typedef_decl_le:
  "typedef_decl ok t n s = Inr s' \<Longrightarrow> typedefs s \<subseteq>\<^sub>m typedefs s'"
  by (drule typedef_decl_facts) (elim conjE)

lemma step_uintptr_Inr:
  assumes "ifdef ''__linux__'' [typedef_decl ok (Named ''uintptr_t'') ''__uintptr_t''] m = Inr a"
  shows "typedefs m \<subseteq>\<^sub>m typedefs a"
    and "dom (typedefs a) \<subseteq> insert ''__uintptr_t'' (dom (typedefs m))"
    and "macros a = macros m"
    and "objects a = objects m" and "other_tags a = other_tags m"
proof -
  have "a = m \<or> typedef_decl ok (Named ''uintptr_t'') ''__uintptr_t'' m = Inr a"
    using assms by (simp add: ifdef_def seq_single del: seq.simps split: if_splits)
  then have "typedefs m \<subseteq>\<^sub>m typedefs a \<and> dom (typedefs a) \<subseteq> insert ''__uintptr_t'' (dom (typedefs m))
      \<and> macros a = macros m \<and> objects a = objects m \<and> other_tags a = other_tags m"
  proof (rule disjE)
    assume "a = m"
    then show ?thesis by (simp add: subset_insertI)
  next
    assume t: "typedef_decl ok (Named ''uintptr_t'') ''__uintptr_t'' m = Inr a"
    have "dom (typedefs a) \<subseteq> insert ''__uintptr_t'' (dom (typedefs m))"
      unfolding typedef_decl_dom[OF t] by (rule subset_refl)
    then show ?thesis
      by (intro conjI)
        (rule typedef_decl_le[OF t] typedef_decl_Inr(1)[OF t] typedef_decl_names_kept(1)[OF t]
          typedef_decl_names_kept(2)[OF t] | assumption)+
  qed
  then show "typedefs m \<subseteq>\<^sub>m typedefs a"
    and "dom (typedefs a) \<subseteq> insert ''__uintptr_t'' (dom (typedefs m))"
    and "macros a = macros m"
    and "objects a = objects m" and "other_tags a = other_tags m" by simp_all
qed

lemma step_ioctl_Inr:
  assumes "ifndef ''_CAP_IOCTL_T_DECLARED''
           [ define_macro ''_CAP_IOCTL_T_DECLARED'',
             typedef_decl ok (Base CULong) ''cap_ioctl_t'' ] c = Inr d"
  shows "dom (typedefs d) \<subseteq> insert ''cap_ioctl_t'' (dom (typedefs c))"
    and "macros d \<subseteq> insert ''_CAP_IOCTL_T_DECLARED'' (macros c)"
    and "objects d = objects c" and "other_tags d = other_tags c"
proof -
  have "d = c \<or> (\<exists>x. define_macro ''_CAP_IOCTL_T_DECLARED'' c = Inr x
           \<and> typedef_decl ok (Base CULong) ''cap_ioctl_t'' x = Inr d)"
    using assms
    by (simp add: ifndef_def seq_Cons_Inr seq_single del: seq.simps split: if_splits)
  then have "dom (typedefs d) \<subseteq> insert ''cap_ioctl_t'' (dom (typedefs c))
      \<and> macros d \<subseteq> insert ''_CAP_IOCTL_T_DECLARED'' (macros c)
      \<and> objects d = objects c \<and> other_tags d = other_tags c"
  proof (rule disjE)
    assume "d = c"
    then show ?thesis by (simp add: subset_insertI)
  next
    assume "\<exists>x. define_macro ''_CAP_IOCTL_T_DECLARED'' c = Inr x
           \<and> typedef_decl ok (Base CULong) ''cap_ioctl_t'' x = Inr d"
    then obtain x where x: "define_macro ''_CAP_IOCTL_T_DECLARED'' c = Inr x"
      and y: "typedef_decl ok (Base CULong) ''cap_ioctl_t'' x = Inr d"
      by (rule exE) (erule conjE)
    note fx = define_macro_Inr[OF x]
    have a: "dom (typedefs d) \<subseteq> insert ''cap_ioctl_t'' (dom (typedefs c))"
      unfolding typedef_decl_dom[OF y] fx(2) by (rule subset_refl)
    have b: "macros d \<subseteq> insert ''_CAP_IOCTL_T_DECLARED'' (macros c)"
      unfolding typedef_decl_Inr(1)[OF y] fx(1) by (rule subset_refl)
    have c: "objects d = objects c"
      unfolding typedef_decl_names_kept(1)[OF y] fx(6) by (rule refl)
    have e: "other_tags d = other_tags c"
      unfolding typedef_decl_names_kept(2)[OF y] fx(7) by (rule refl)
    from a b c e show ?thesis by (intro conjI)
  qed
  then show "dom (typedefs d) \<subseteq> insert ''cap_ioctl_t'' (dom (typedefs c))"
    and "macros d \<subseteq> insert ''_CAP_IOCTL_T_DECLARED'' (macros c)"
    and "objects d = objects c" and "other_tags d = other_tags c" by simp_all
qed

lemma map_le_None: "f \<subseteq>\<^sub>m g \<Longrightarrow> g x = None \<Longrightarrow> f x = None"
  unfolding map_le_def by (metis domIff)

lemma ifdef_Inl: "ifdef g body s = Inl e \<longleftrightarrow> g \<in> macros s \<and> seq body s = Inl e"
  by (simp add: ifdef_def)

lemma ifndef_Inl: "ifndef g body s = Inl e \<longleftrightarrow> g \<notin> macros s \<and> seq body s = Inl e"
  by (simp add: ifndef_def)

lemma define_macro_not_Inl: "define_macro g s \<noteq> Inl e"
  by (simp add: define_macro_def)

lemma header_token_not_guard:
  "t \<in> set header_tokens \<Longrightarrow> t \<noteq> ''_CAP_IOCTL_T_DECLARED'' \<and> t \<noteq> ''_CAP_RIGHTS_T_DECLARED''"
  by (auto simp: header_tokens_def)

lemma line_tokens:
  "set [''typedef'', ''uintptr_t'', ''__uintptr_t''] \<subseteq> set header_tokens"
  "set [''typedef'', ''int'', ''__nl_item''] \<subseteq> set header_tokens"
  "set [''typedef'', ''size_t'', ''u_register_t''] \<subseteq> set header_tokens"
  "set [''typedef'', ''unsigned'', ''long'', ''cap_ioctl_t''] \<subseteq> set header_tokens"
  "set [''struct'', ''cap_rights''] \<subseteq> set header_tokens"
  "set [''typedef'', ''struct'', ''cap_rights'', ''cap_rights_t''] \<subseteq> set header_tokens"
  by (simp_all add: header_tokens_def)

text \<open>
  A declaration line that does not succeed: either a macro rewrites it, and the macro was
  already defined behind the platform headers, or the declaration it spells is rejected.
\<close>

lemma source_line_fails:
  assumes f: "source_line toks d s = Inl e"
    and toks: "set toks \<subseteq> set header_tokens"
    and mac: "macros s \<subseteq> insert ''_CAP_IOCTL_T_DECLARED'' (insert ''_CAP_RIGHTS_T_DECLARED'' (macros m))"
  shows "(\<exists>t \<in> set header_tokens. e = MacroRewrites t \<and> t \<in> macros m) \<or> d s = Inl e"
proof -
  from source_line_Inl[OF f] show ?thesis
  proof (rule disjE)
    assume "\<exists>t \<in> set toks. t \<in> macros s \<and> e = MacroRewrites t"
    then obtain t where t: "t \<in> set toks" and m: "t \<in> macros s" and e: "e = MacroRewrites t"
      by (rule bexE) (erule conjE)
    from t toks have h: "t \<in> set header_tokens" by (rule rev_subsetD)
    from m mac have "t \<in> insert ''_CAP_IOCTL_T_DECLARED'' (insert ''_CAP_RIGHTS_T_DECLARED'' (macros m))"
      by (rule rev_subsetD)
    with header_token_not_guard[OF h] have "t \<in> macros m" by simp
    with e have "e = MacroRewrites t \<and> t \<in> macros m" by (intro conjI)
    with h have "\<exists>t \<in> set header_tokens. e = MacroRewrites t \<and> t \<in> macros m" by (rule bexI[rotated])
    then show ?thesis by (rule disjI1)
  next
    assume "(\<forall>t \<in> set toks. t \<notin> macros s) \<and> d s = Inl e"
    then have "d s = Inl e" by (rule conjunct2)
    then show ?thesis by (rule disjI2)
  qed
qed

text \<open>The ways in which the part of the header after the two includes can fail.\<close>

lemma patches_Inl:
  assumes "seq
       [ ifdef ''__linux__'' [ line_uintptr ok ],
         line_nl_item ok,
         line_u_register ok,
         ifndef ''_CAP_IOCTL_T_DECLARED''
           [ define_macro ''_CAP_IOCTL_T_DECLARED'', line_cap_ioctl ok ],
         ifndef ''_CAP_RIGHTS_T_DECLARED''
           [ define_macro ''_CAP_RIGHTS_T_DECLARED'',
             line_struct_cap_rights,
             line_cap_rights ok ] ] m = Inl e"
  shows "(e = UnknownType ''uintptr_t'' \<and> ''__linux__'' \<in> macros m \<and> typedefs m ''uintptr_t'' = None)
       \<or> (e = UnknownType ''size_t'' \<and> typedefs m ''size_t'' = None)
       \<or> (\<exists>n \<in> set five_names. e = Redefinition n \<and> (typedefs m n \<noteq> None \<or> n \<in> objects m))
       \<or> (e = TagMismatch ''cap_rights'' \<and> ''cap_rights'' \<in> other_tags m)
       \<or> (\<exists>t \<in> set header_tokens. e = MacroRewrites t \<and> t \<in> macros m)"
    (is "?U \<or> ?S \<or> ?R \<or> ?T \<or> ?W")
proof -
  let ?G1 = "''_CAP_IOCTL_T_DECLARED''" and ?G2 = "''_CAP_RIGHTS_T_DECLARED''"
  let ?d1 = "ifdef ''__linux__'' [ line_uintptr ok ]"
  let ?d2 = "line_nl_item ok"
  let ?d3 = "line_u_register ok"
  let ?d4 = "ifndef ''_CAP_IOCTL_T_DECLARED''
           [ define_macro ''_CAP_IOCTL_T_DECLARED'', line_cap_ioctl ok ]"
  let ?d5 = "ifndef ''_CAP_RIGHTS_T_DECLARED''
           [ define_macro ''_CAP_RIGHTS_T_DECLARED'',
             line_struct_cap_rights,
             line_cap_rights ok ]"
  have five: "''__uintptr_t'' \<in> set five_names" "''__nl_item'' \<in> set five_names"
    "''u_register_t'' \<in> set five_names" "''cap_ioctl_t'' \<in> set five_names"
    "''cap_rights_t'' \<in> set five_names"
    by (simp_all add: five_names_def)
  have redef: "?R" if "e = Redefinition n" and "n \<in> set five_names"
    and "n \<in> dom (typedefs m) \<union> objects m" for n
    using that by blast
  from assms consider
      (1) "?d1 m = Inl e"
    | (2) a where "?d1 m = Inr a" "?d2 a = Inl e"
    | (3) a b where "?d1 m = Inr a" "?d2 a = Inr b" "?d3 b = Inl e"
    | (4) a b c where "?d1 m = Inr a" "?d2 a = Inr b" "?d3 b = Inr c" "?d4 c = Inl e"
    | (5) a b c d where "?d1 m = Inr a" "?d2 a = Inr b" "?d3 b = Inr c" "?d4 c = Inr d" "?d5 d = Inl e"
    by (auto simp: seq_Cons_Inl simp del: seq.simps(2))
  then show ?thesis
  proof cases
    case 1
    note c1 = 1[unfolded ifdef_Inl seq_single]
    have l: "''__linux__'' \<in> macros m" by (rule conjunct1[OF c1])
    have f: "line_uintptr ok m = Inl e" by (rule conjunct2[OF c1])
    have "macros m \<subseteq> insert ?G1 (insert ?G2 (macros m))" by (intro subset_insertI2 subset_refl)
    from source_line_fails[OF f[unfolded line_uintptr_def] line_tokens(1) this]
    show ?thesis
    proof (rule disjE)
      assume ?W then show ?thesis by (intro disjI2)
    next
      assume "typedef_decl ok (Named ''uintptr_t'') ''__uintptr_t'' m = Inl e"
      from typedef_decl_Named_Inl[OF this] show ?thesis
      proof (rule disjE)
        assume u: "e = UnknownType ''uintptr_t'' \<and> typedefs m ''uintptr_t'' = None"
        have ?U by (intro conjI) (rule conjunct1[OF u] l conjunct2[OF u])+
        then show ?thesis by (rule disjI1)
      next
        assume r: "e = Redefinition ''__uintptr_t'' \<and> ''__uintptr_t'' \<in> dom (typedefs m) \<union> objects m"
        from redef[OF conjunct1[OF r] five(1) conjunct2[OF r]] show ?thesis by (intro disjI2 disjI1)
      qed
    qed
  next
    case 2
    have t1: "ifdef ''__linux__'' [ typedef_decl ok (Named ''uintptr_t'') ''__uintptr_t'' ] m = Inr a"
      using 2(1) by (simp add: ifdef_def seq_single line_uintptr_Inr del: seq.simps split: if_splits)
    note sa = step_uintptr_Inr[OF t1]
    have "macros a \<subseteq> insert ?G1 (insert ?G2 (macros m))" unfolding sa(3) by (intro subset_insertI2 subset_refl)
    from source_line_fails[OF 2(2)[unfolded line_nl_item_def] line_tokens(2) this]
    show ?thesis
    proof (rule disjE)
      assume ?W then show ?thesis by (intro disjI2)
    next
      assume "typedef_decl ok (Base CInt) ''__nl_item'' a = Inl e"
      note r = typedef_decl_Base_Inl[OF this]
      from conjunct2[OF r] sa(2) have "''__nl_item'' \<in> dom (typedefs m) \<union> objects m"
        unfolding sa(4) by auto
      from redef[OF conjunct1[OF r] five(2) this] show ?thesis by (intro disjI2 disjI1)
    qed
  next
    case 3
    have t1: "ifdef ''__linux__'' [ typedef_decl ok (Named ''uintptr_t'') ''__uintptr_t'' ] m = Inr a"
      using 3(1) by (simp add: ifdef_def seq_single line_uintptr_Inr del: seq.simps split: if_splits)
    note sa = step_uintptr_Inr[OF t1]
    have t2: "typedef_decl ok (Base CInt) ''__nl_item'' a = Inr b"
      by (rule conjunct2[OF 3(2)[unfolded line_nl_item_Inr]])
    note db = typedef_decl_dom[OF t2]
    have mb: "macros b = macros m" using typedef_decl_Inr(1)[OF t2] sa(3) by simp
    have ob: "objects b = objects m" using typedef_decl_names_kept(1)[OF t2] sa(4) by simp
    have "macros b \<subseteq> insert ?G1 (insert ?G2 (macros m))" unfolding mb by (intro subset_insertI2 subset_refl)
    from source_line_fails[OF 3(3)[unfolded line_u_register_def] line_tokens(3) this]
    show ?thesis
    proof (rule disjE)
      assume ?W then show ?thesis by (intro disjI2)
    next
      assume "typedef_decl ok (Named ''size_t'') ''u_register_t'' b = Inl e"
      from typedef_decl_Named_Inl[OF this] show ?thesis
      proof (rule disjE)
        assume u: "e = UnknownType ''size_t'' \<and> typedefs b ''size_t'' = None"
        have "typedefs m \<subseteq>\<^sub>m typedefs b"
          using sa(1) typedef_decl_le[OF t2] by (rule map_le_trans)
        with conjunct2[OF u] have "typedefs m ''size_t'' = None"
          using map_le_None[of "typedefs m" "typedefs b" "''size_t''"] by blast
        with conjunct1[OF u] have ?S by (intro conjI)
        then show ?thesis by (intro disjI2 disjI1)
      next
        assume r: "e = Redefinition ''u_register_t'' \<and> ''u_register_t'' \<in> dom (typedefs b) \<union> objects b"
        from conjunct2[OF r] have "''u_register_t'' \<in> dom (typedefs a) \<union> objects m"
          unfolding ob db by simp
        with sa(2) have "''u_register_t'' \<in> dom (typedefs m) \<union> objects m" by auto
        from redef[OF conjunct1[OF r] five(3) this] show ?thesis by (intro disjI2 disjI1)
      qed
    qed
  next
    case 4
    have t1: "ifdef ''__linux__'' [ typedef_decl ok (Named ''uintptr_t'') ''__uintptr_t'' ] m = Inr a"
      using 4(1) by (simp add: ifdef_def seq_single line_uintptr_Inr del: seq.simps split: if_splits)
    note sa = step_uintptr_Inr[OF t1]
    have t2: "typedef_decl ok (Base CInt) ''__nl_item'' a = Inr b"
      by (rule conjunct2[OF 4(2)[unfolded line_nl_item_Inr]])
    have t3: "typedef_decl ok (Named ''size_t'') ''u_register_t'' b = Inr c"
      by (rule conjunct2[OF 4(3)[unfolded line_u_register_Inr]])
    note db = typedef_decl_dom[OF t2]
    note dc = typedef_decl_dom[OF t3]
    have mc: "macros c = macros m"
      using typedef_decl_Inr(1)[OF t3] typedef_decl_Inr(1)[OF t2] sa(3) by simp
    have oc: "objects c = objects m"
      using typedef_decl_names_kept(1)[OF t3] typedef_decl_names_kept(1)[OF t2] sa(4) by simp
    have "seq [ define_macro ?G1, line_cap_ioctl ok ] c = Inl e"
      by (rule conjunct2[OF 4(4)[unfolded ifndef_Inl]])
    then obtain x where x: "define_macro ?G1 c = Inr x" and y: "line_cap_ioctl ok x = Inl e"
      unfolding seq_Cons_Inl seq_single using define_macro_not_Inl by blast
    note fx = define_macro_Inr[OF x]
    have "macros x \<subseteq> insert ?G1 (insert ?G2 (macros m))" unfolding fx(1) mc by blast
    from source_line_fails[OF y[unfolded line_cap_ioctl_def] line_tokens(4) this]
    show ?thesis
    proof (rule disjE)
      assume ?W then show ?thesis by (intro disjI2)
    next
      assume "typedef_decl ok (Base CULong) ''cap_ioctl_t'' x = Inl e"
      note r = typedef_decl_Base_Inl[OF this]
      from conjunct2[OF r] have "''cap_ioctl_t'' \<in> dom (typedefs a) \<union> objects m"
        unfolding fx(2) fx(6) oc dc db by simp
      with sa(2) have "''cap_ioctl_t'' \<in> dom (typedefs m) \<union> objects m" by auto
      from redef[OF conjunct1[OF r] five(4) this] show ?thesis by (intro disjI2 disjI1)
    qed
  next
    case 5
    have t1: "ifdef ''__linux__'' [ typedef_decl ok (Named ''uintptr_t'') ''__uintptr_t'' ] m = Inr a"
      using 5(1) by (simp add: ifdef_def seq_single line_uintptr_Inr del: seq.simps split: if_splits)
    note sa = step_uintptr_Inr[OF t1]
    have t2: "typedef_decl ok (Base CInt) ''__nl_item'' a = Inr b"
      by (rule conjunct2[OF 5(2)[unfolded line_nl_item_Inr]])
    have t3: "typedef_decl ok (Named ''size_t'') ''u_register_t'' b = Inr c"
      by (rule conjunct2[OF 5(3)[unfolded line_u_register_Inr]])
    have t4: "ifndef ''_CAP_IOCTL_T_DECLARED''
           [ define_macro ''_CAP_IOCTL_T_DECLARED'',
             typedef_decl ok (Base CULong) ''cap_ioctl_t'' ] c = Inr d"
      using 5(4)
      by (auto simp: ifndef_def seq_Cons_Inr seq_single line_cap_ioctl_Inr simp del: seq.simps
          split: if_splits)
    note sd = step_ioctl_Inr[OF t4]
    note db = typedef_decl_dom[OF t2]
    note dc = typedef_decl_dom[OF t3]
    have mc: "macros c = macros m"
      using typedef_decl_Inr(1)[OF t3] typedef_decl_Inr(1)[OF t2] sa(3) by simp
    have od: "objects d = objects m"
      using sd(3) typedef_decl_names_kept(1)[OF t3] typedef_decl_names_kept(1)[OF t2] sa(4) by simp
    have gd: "other_tags d = other_tags m"
      using sd(4) typedef_decl_names_kept(2)[OF t3] typedef_decl_names_kept(2)[OF t2] sa(5) by simp
    have "dom (typedefs d) \<subseteq>
        insert ''cap_ioctl_t'' (insert ''u_register_t'' (insert ''__nl_item'' (dom (typedefs a))))"
      using sd(1) unfolding dc db .
    also have "\<dots> \<subseteq> insert ''cap_ioctl_t'' (insert ''u_register_t'' (insert ''__nl_item''
        (insert ''__uintptr_t'' (dom (typedefs m)))))"
      using sa(2) by (intro insert_mono)
    finally have dd: "dom (typedefs d) \<subseteq> insert ''cap_ioctl_t'' (insert ''u_register_t''
        (insert ''__nl_item'' (insert ''__uintptr_t'' (dom (typedefs m)))))" .
    have md: "macros d \<subseteq> insert ?G1 (macros m)" using sd(2) unfolding mc .
    have "seq [ define_macro ?G2, line_struct_cap_rights, line_cap_rights ok ] d = Inl e"
      by (rule conjunct2[OF 5(5)[unfolded ifndef_Inl]])
    then obtain x where x: "define_macro ?G2 d = Inr x"
      and r: "line_struct_cap_rights x = Inl e
              \<or> (\<exists>y. line_struct_cap_rights x = Inr y \<and> line_cap_rights ok y = Inl e)"
      unfolding seq_Cons_Inl seq_single using define_macro_not_Inl by blast
    note fx = define_macro_Inr[OF x]
    have mx: "macros x \<subseteq> insert ?G1 (insert ?G2 (macros m))" unfolding fx(1) using md by blast
    from r show ?thesis
    proof (rule disjE)
      assume f: "line_struct_cap_rights x = Inl e"
      from source_line_fails[OF f[unfolded line_struct_cap_rights_def] line_tokens(5) mx]
      show ?thesis
      proof (rule disjE)
        assume ?W then show ?thesis by (intro disjI2)
      next
        assume "struct_fwd ''cap_rights'' x = Inl e"
        from struct_fwd_Inl[OF this] have ?T unfolding fx(7) gd .
        then show ?thesis by (intro disjI2 disjI1)
      qed
    next
      assume "\<exists>y. line_struct_cap_rights x = Inr y \<and> line_cap_rights ok y = Inl e"
      then obtain y where sy: "line_struct_cap_rights x = Inr y" and f: "line_cap_rights ok y = Inl e"
        by (rule exE) (erule conjE)
      have ty: "struct_fwd ''cap_rights'' x = Inr y"
        by (rule conjunct2[OF sy[unfolded line_struct_cap_rights_Inr]])
      note fy = struct_fwd_Inr[OF ty]
      have my: "macros y \<subseteq> insert ?G1 (insert ?G2 (macros m))" unfolding fy(1) by (rule mx)
      from source_line_fails[OF f[unfolded line_cap_rights_def] line_tokens(6) my]
      show ?thesis
      proof (rule disjE)
        assume ?W then show ?thesis by (intro disjI2)
      next
        assume "typedef_decl ok (StructT ''cap_rights'') ''cap_rights_t'' y = Inl e"
        from typedef_decl_Struct_Inl[OF this] show ?thesis
        proof (rule disjE)
          assume "e = TagMismatch ''cap_rights'' \<and> ''cap_rights'' \<in> other_tags y"
          then have ?T unfolding fy(9) fx(7) gd .
          then show ?thesis by (intro disjI2 disjI1)
        next
          assume r: "e = Redefinition ''cap_rights_t'' \<and> ''cap_rights_t'' \<in> dom (typedefs y) \<union> objects y"
          from conjunct2[OF r] have "''cap_rights_t'' \<in> dom (typedefs d) \<union> objects m"
            unfolding fy(2) fy(10) fx(2) fx(6) od by simp
          with dd have "''cap_rights_t'' \<in> dom (typedefs m) \<union> objects m" by auto
          from redef[OF conjunct1[OF r] five(5) this] show ?thesis by (intro disjI2 disjI1)
        qed
      qed
    qed
  qed
qed

lemma include_next_Inl:
  assumes "include_next ext ok name content s = Inl e"
  shows "(\<not> ext \<and> e = ExtensionRejected ''#include_next'')
       \<or> (ext \<and> include_file ok name content s = Inl e)"
  using assms by (cases ext) (simp_all add: include_next_def)

lemma include_next_Inr:
  assumes "include_next ext ok name content s = Inr m"
  shows "ext \<and> include_file ok name content s = Inr m"
  using assms by (cases ext) (simp_all add: include_next_def)

text \<open>
  C5, as the code has it. An inclusion fails only on a first inclusion, and only in one of
  these ways: the compiler rejects \<^verbatim>\<open>#include_next\<close> as an extension;
  \<^verbatim>\<open>sys/types.h\<close> does not resolve or its contents raise a diagnostic; \<^verbatim>\<open>stdint.h\<close> does
  not resolve or its contents raise a diagnostic; \<open>uintptr_t\<close> (under \<^verbatim>\<open>__linux__\<close>) or
  \<open>size_t\<close> is not declared as a type by the platform headers; one of the five names is
  already declared, as a typedef name or as another ordinary identifier, when the header
  declares it, and the compiler rejects the second declaration; \<open>cap_rights\<close> is already
  the tag of a union or an enumeration; or one of the identifiers and keywords of the
  header's declaration lines is defined as a macro, so that the line is rewritten before
  it is read (what the rewritten line then does depends on the replacement text and is not
  followed here).
\<close>

theorem failure_modes:
  assumes "types_h p s = Inl e"
  shows "this_file \<notin> once s \<and>
    ((\<not> include_next_ok p \<and> e = ExtensionRejected ''#include_next'')
     \<or> (include_next_ok p
          \<and> include_file (typedef_redecl_ok p) ''sys/types.h'' (sys_types_h p)
               (s\<lparr>once := insert this_file (once s)\<rparr>) = Inl e)
     \<or> (\<exists>m1. include_next_ok p
           \<and> include_file (typedef_redecl_ok p) ''sys/types.h'' (sys_types_h p)
               (s\<lparr>once := insert this_file (once s)\<rparr>) = Inr m1
           \<and> (include_file (typedef_redecl_ok p) ''stdint.h'' (stdint_h p) m1 = Inl e
               \<or> (\<exists>m. include_file (typedef_redecl_ok p) ''stdint.h'' (stdint_h p) m1 = Inr m
                    \<and> ((e = UnknownType ''uintptr_t'' \<and> ''__linux__'' \<in> macros m
                           \<and> typedefs m ''uintptr_t'' = None)
                        \<or> (e = UnknownType ''size_t'' \<and> typedefs m ''size_t'' = None)
                        \<or> (\<exists>n \<in> set five_names. e = Redefinition n
                              \<and> (typedefs m n \<noteq> None \<or> n \<in> objects m))
                        \<or> (e = TagMismatch ''cap_rights'' \<and> ''cap_rights'' \<in> other_tags m)
                        \<or> (\<exists>t \<in> set header_tokens. e = MacroRewrites t \<and> t \<in> macros m))))))"
    (is "_ \<and> (?X \<or> ?Y \<or> ?Z)")
proof -
  let ?s0 = "s\<lparr>once := insert this_file (once s)\<rparr>"
  let ?ok = "typedef_redecl_ok p"
  let ?inc = "include_next (include_next_ok p) ?ok ''sys/types.h'' (sys_types_h p)"
  let ?std = "include_file ?ok ''stdint.h'' (stdint_h p)"
  let ?patches = "[ ifdef ''__linux__'' [ line_uintptr ?ok ],
         line_nl_item ?ok,
         line_u_register ?ok,
         ifndef ''_CAP_IOCTL_T_DECLARED''
           [ define_macro ''_CAP_IOCTL_T_DECLARED'', line_cap_ioctl ?ok ],
         ifndef ''_CAP_RIGHTS_T_DECLARED''
           [ define_macro ''_CAP_RIGHTS_T_DECLARED'',
             line_struct_cap_rights,
             line_cap_rights ?ok ] ]"
  have first: "this_file \<notin> once s"
    using assms by (auto simp: types_h_def pragma_once_def)
  with assms have run: "seq (?inc # ?std # ?patches) ?s0 = Inl e"
    by (simp add: types_h_def pragma_once_def del: seq.simps)
  then consider
      (sys) "?inc ?s0 = Inl e"
    | (std) m1 where "?inc ?s0 = Inr m1" "?std m1 = Inl e"
    | (own) m1 m where "?inc ?s0 = Inr m1" "?std m1 = Inr m" "seq ?patches m = Inl e"
    unfolding seq_Cons_Inl[of ?inc] seq_Cons_Inl[of ?std]
    by blast
  then have "?X \<or> ?Y \<or> ?Z"
  proof cases
    case sys
    from include_next_Inl[OF sys] show ?thesis
    proof (rule disjE)
      assume ?X then show ?thesis by (rule disjI1)
    next
      assume ?Y then show ?thesis by (intro disjI2 disjI1)
    qed
  next
    case std
    note i = include_next_Inr[OF std(1)]
    from i std(2) have ?Z by blast
    then show ?thesis by (intro disjI2)
  next
    case own
    note i = include_next_Inr[OF own(1)]
    note f = patches_Inl[OF own(3)]
    from i own(2) f have ?Z by blast
    then show ?thesis by (intro disjI2)
  qed
  with first show ?thesis by (rule conjI)
qed

theorem failure_modes_witness:
  "types_h clash_host linux_tu = Inl (Redefinition ''__nl_item'')
   \<and> this_file \<notin> once linux_tu
   \<and> include_next_ok clash_host
   \<and> (\<exists>m1. include_file True ''sys/types.h'' (Some clash_sys_types)
               (linux_tu\<lparr>once := insert this_file (once linux_tu)\<rparr>) = Inr m1
         \<and> (\<exists>m. include_file True ''stdint.h'' (Some host_stdint) m1 = Inr m
               \<and> (typedefs m ''__nl_item'' \<noteq> None \<or> ''__nl_item'' \<in> objects m)))
   \<and> types_h pedantic_host linux_tu = Inl (ExtensionRejected ''#include_next'')
   \<and> types_h posix_host nl_item_macro_tu = Inl (MacroRewrites ''__nl_item'')"
proof -
  have h: "types_h clash_host linux_tu = Inl (Redefinition ''__nl_item'')"
    by (simp add: ex_defs sem_defs)
  have p: "typedef_redecl_ok clash_host = True" "sys_types_h clash_host = Some clash_sys_types"
    "stdint_h clash_host = Some host_stdint" "include_next_ok clash_host = True"
    by (simp_all add: clash_host_def)
  have a: "include_file True ''sys/types.h'' (Some clash_sys_types)
        (linux_tu\<lparr>once := insert this_file (once linux_tu)\<rparr>) \<noteq> Inl (Redefinition ''__nl_item'')"
    by (simp add: ex_defs sem_defs)
  have b: "include_file True ''stdint.h'' (Some host_stdint) m1 \<noteq> Inl (Redefinition ''__nl_item'')" for m1
    by (simp add: ex_defs sem_defs split: option.splits)
  have c: "types_h pedantic_host linux_tu = Inl (ExtensionRejected ''#include_next'')"
    by (simp add: ex_defs sem_defs)
  have d: "types_h posix_host nl_item_macro_tu = Inl (MacroRewrites ''__nl_item'')"
    by (simp add: ex_defs sem_defs)
  from failure_modes[OF h, unfolded p] a b
  have "\<exists>m1. include_file True ''sys/types.h'' (Some clash_sys_types)
               (linux_tu\<lparr>once := insert this_file (once linux_tu)\<rparr>) = Inr m1
         \<and> (\<exists>m. include_file True ''stdint.h'' (Some host_stdint) m1 = Inr m
               \<and> (typedefs m ''__nl_item'' \<noteq> None \<or> ''__nl_item'' \<in> objects m))"
    by (auto simp: five_names_def)
  moreover have "this_file \<notin> once linux_tu" by (simp add: linux_tu_def)
  ultimately show ?thesis using h c d p(4) by simp
qed

text \<open>
  The claim as written fails in two ways while \<^verbatim>\<open>sys/types.h\<close> resolves: a host without
  \<^verbatim>\<open>stdint.h\<close> gets a second missing-header error, and a host whose \<open>__nl_item\<close> is not
  \<open>int\<close> gets a redefinition conflict from the header's own typedef.
\<close>

theorem other_failures_counterexample:
  "sys_types_h no_stdint_host \<noteq> None
   \<and> types_h no_stdint_host linux_tu = Inl (FileNotFound ''stdint.h'')
   \<and> sys_types_h clash_host \<noteq> None
   \<and> types_h clash_host linux_tu = Inl (Redefinition ''__nl_item'')"
  by (simp add: ex_defs sem_defs)

section \<open>Order of the output\<close>

lemma set_patch_decls:
  "set (patch_decls M) \<subseteq>
     {Typedef (Named ''uintptr_t'') ''__uintptr_t'', Typedef (Base CInt) ''__nl_item'',
      Typedef (Named ''size_t'') ''u_register_t'', Typedef (Base CULong) ''cap_ioctl_t'',
      StructFwd ''cap_rights'', Typedef (StructT ''cap_rights'') ''cap_rights_t''}"
  by (auto simp: patch_decls_def)

lemma patch_decls_unconditional:
  "\<exists>pre post. patch_decls M =
     pre @ [Typedef (Base CInt) ''__nl_item'', Typedef (Named ''size_t'') ''u_register_t''] @ post"
  unfolding patch_decls_def by blast

text \<open>
  C6. On every successful first inclusion the declarations of the platform's
  \<^verbatim>\<open>sys/types.h\<close> are emitted first, in full; the header's own declarations come only
  afterwards (behind those of \<^verbatim>\<open>stdint.h\<close>), so every symbol it patches in stands
  textually after the forwarded platform contents. The header's own declarations are
  there: they are the declarations of the source text in file order, among them always
  those of \<open>__nl_item\<close> and \<open>u_register_t\<close>, and nothing else.
\<close>

theorem platform_contents_come_first:
  assumes ok: "types_h p s = Inr s'" and first: "this_file \<notin> once s"
  shows "\<exists>sys std. sys_types_h p = Some sys \<and> stdint_h p = Some std
     \<and> emitted s' = emitted s @ decls_of sys @ decls_of std @ own_decls p s s'
     \<and> own_decls p s s' = patch_decls (mid_macros p s)
     \<and> (\<exists>pre post. own_decls p s s' =
           pre @ [Typedef (Base CInt) ''__nl_item'', Typedef (Named ''size_t'') ''u_register_t'']
             @ post)
     \<and> set (own_decls p s s') \<subseteq>
         {Typedef (Named ''uintptr_t'') ''__uintptr_t'', Typedef (Base CInt) ''__nl_item'',
          Typedef (Named ''size_t'') ''u_register_t'', Typedef (Base CULong) ''cap_ioctl_t'',
          StructFwd ''cap_rights'', Typedef (StructT ''cap_rights'') ''cap_rights_t''}"
proof -
  from types_h_first(1)[OF ok first] obtain sys std
    where sys: "sys_types_h p = Some sys" and std: "stdint_h p = Some std" by blast
  have cs: "contents (sys_types_h p) = sys" "contents (stdint_h p) = std"
    by (simp_all add: sys std contents_def)
  note o = own_decls_first[OF ok first]
  have a: "emitted s' = emitted s @ decls_of sys @ decls_of std @ own_decls p s s'"
    using types_h_first(4)[OF ok first] unfolding o cs .
  have b: "\<exists>pre post. own_decls p s s' =
           pre @ [Typedef (Base CInt) ''__nl_item'', Typedef (Named ''size_t'') ''u_register_t'']
             @ post"
    unfolding o by (rule patch_decls_unconditional)
  have c: "set (own_decls p s s') \<subseteq>
         {Typedef (Named ''uintptr_t'') ''__uintptr_t'', Typedef (Base CInt) ''__nl_item'',
          Typedef (Named ''size_t'') ''u_register_t'', Typedef (Base CULong) ''cap_ioctl_t'',
          StructFwd ''cap_rights'', Typedef (StructT ''cap_rights'') ''cap_rights_t''}"
    unfolding o by (rule set_patch_decls)
  from a o b c have "emitted s' = emitted s @ decls_of sys @ decls_of std @ own_decls p s s'
     \<and> own_decls p s s' = patch_decls (mid_macros p s)
     \<and> (\<exists>pre post. own_decls p s s' =
           pre @ [Typedef (Base CInt) ''__nl_item'', Typedef (Named ''size_t'') ''u_register_t'']
             @ post)
     \<and> set (own_decls p s s') \<subseteq>
         {Typedef (Named ''uintptr_t'') ''__uintptr_t'', Typedef (Base CInt) ''__nl_item'',
          Typedef (Named ''size_t'') ''u_register_t'', Typedef (Base CULong) ''cap_ioctl_t'',
          StructFwd ''cap_rights'', Typedef (StructT ''cap_rights'') ''cap_rights_t''}"
    by (intro conjI)
  with sys std show ?thesis by blast
qed

theorem platform_contents_come_first_witness:
  "\<not> isl (types_h posix_host linux_tu) \<and> this_file \<notin> once linux_tu
   \<and> emitted (projr (types_h posix_host linux_tu)) =
       emitted linux_tu @ decls_of posix_sys_types @ decls_of host_stdint
         @ own_decls posix_host linux_tu (projr (types_h posix_host linux_tu))
   \<and> own_decls posix_host linux_tu (projr (types_h posix_host linux_tu)) =
       [Typedef (Named ''uintptr_t'') ''__uintptr_t'',
        Typedef (Base CInt) ''__nl_item'',
        Typedef (Named ''size_t'') ''u_register_t'',
        Typedef (Base CULong) ''cap_ioctl_t'',
        StructFwd ''cap_rights'',
        Typedef (StructT ''cap_rights'') ''cap_rights_t'']
   \<and> emitted (projr (types_h posix_host linux_tu)) =
       [Typedef (Base CULong) ''size_t'', Typedef (Base CInt) ''pid_t'',
        Typedef (Base CUInt) ''uint32_t'', Typedef (Base CULong) ''uintptr_t'',
        Typedef (Named ''uintptr_t'') ''__uintptr_t'',
        Typedef (Base CInt) ''__nl_item'',
        Typedef (Named ''size_t'') ''u_register_t'',
        Typedef (Base CULong) ''cap_ioctl_t'',
        StructFwd ''cap_rights'',
        Typedef (StructT ''cap_rights'') ''cap_rights_t'']"
proof -
  define s' where "s' = projr (types_h posix_host linux_tu)"
  have ok: "\<not> isl (types_h posix_host linux_tu)"
    by (simp add: ex_defs sem_defs)
  then have h: "types_h posix_host linux_tu = Inr s'"
    unfolding s'_def by (cases "types_h posix_host linux_tu") simp_all
  have first: "this_file \<notin> once linux_tu"
    by (simp add: linux_tu_def)
  have M: "mid_macros posix_host linux_tu = {''__linux__''}"
    by (simp add: mid_macros_def contents_def ex_defs)
  from platform_contents_come_first[OF h first]
  have e: "emitted s' = emitted linux_tu @ decls_of posix_sys_types @ decls_of host_stdint
         @ own_decls posix_host linux_tu s'"
    and o: "own_decls posix_host linux_tu s' = patch_decls (mid_macros posix_host linux_tu)"
    by (auto simp: posix_host_def)
  have o': "own_decls posix_host linux_tu s' =
       [Typedef (Named ''uintptr_t'') ''__uintptr_t'',
        Typedef (Base CInt) ''__nl_item'',
        Typedef (Named ''size_t'') ''u_register_t'',
        Typedef (Base CULong) ''cap_ioctl_t'',
        StructFwd ''cap_rights'',
        Typedef (StructT ''cap_rights'') ''cap_rights_t'']"
    unfolding o M by (simp add: patch_decls_def)
  have e': "emitted s' =
       [Typedef (Base CULong) ''size_t'', Typedef (Base CInt) ''pid_t'',
        Typedef (Base CUInt) ''uint32_t'', Typedef (Base CULong) ''uintptr_t'',
        Typedef (Named ''uintptr_t'') ''__uintptr_t'',
        Typedef (Base CInt) ''__nl_item'',
        Typedef (Named ''size_t'') ''u_register_t'',
        Typedef (Base CULong) ''cap_ioctl_t'',
        StructFwd ''cap_rights'',
        Typedef (StructT ''cap_rights'') ''cap_rights_t'']"
    unfolding e o' by (simp add: decls_of_def ex_defs)
  from ok first e o' e' show ?thesis
    unfolding s'_def by (intro conjI)
qed

section \<open>The platform's declarations are kept\<close>















section \<open>What the output depends on\<close>

lemma patch_decls_cong:
  assumes "''__linux__'' \<in> M \<longleftrightarrow> ''__linux__'' \<in> N"
    and "''_CAP_IOCTL_T_DECLARED'' \<in> M \<longleftrightarrow> ''_CAP_IOCTL_T_DECLARED'' \<in> N"
    and "''_CAP_RIGHTS_T_DECLARED'' \<in> M \<longleftrightarrow> ''_CAP_RIGHTS_T_DECLARED'' \<in> N"
  shows "patch_decls M = patch_decls N"
  unfolding patch_decls_def using assms by simp

lemma own_decls_repeat:
  assumes "types_h p s = Inr s'" and "this_file \<in> once s"
  shows "own_decls p s s' = []"
proof -
  from assms have "s' = s" by (simp add: types_h_repeat)
  then show ?thesis by (simp add: own_decls_def)
qed

text \<open>
  C8, as the code has it. Where no macro rewrites the header's declaration lines, the
  declarations the header itself emits depend on the context of the inclusion only
  through four facts: whether the header has been included before, and whether each of
  \<^verbatim>\<open>__linux__\<close>, \<^verbatim>\<open>_CAP_IOCTL_T_DECLARED\<close> and \<^verbatim>\<open>_CAP_RIGHTS_T_DECLARED\<close> is defined when
  the header tests it. Two successful inclusions that agree on these emit the same
  declarations of their own. A successful inclusion is one in which the lines are read as
  written: on a first inclusion no identifier or keyword of a declaration line that is
  read is then a macro, in either context.
\<close>

theorem own_output_depends_on_three_macros:
  assumes ok1: "types_h p1 s1 = Inr s1'" and ok2: "types_h p2 s2 = Inr s2'"
    and once: "this_file \<in> once s1 \<longleftrightarrow> this_file \<in> once s2"
    and lin: "''__linux__'' \<in> mid_macros p1 s1 \<longleftrightarrow> ''__linux__'' \<in> mid_macros p2 s2"
    and ioc: "''_CAP_IOCTL_T_DECLARED'' \<in> mid_macros p1 s1
                \<longleftrightarrow> ''_CAP_IOCTL_T_DECLARED'' \<in> mid_macros p2 s2"
    and rig: "''_CAP_RIGHTS_T_DECLARED'' \<in> mid_macros p1 s1
                \<longleftrightarrow> ''_CAP_RIGHTS_T_DECLARED'' \<in> mid_macros p2 s2"
  shows "own_decls p1 s1 s1' = own_decls p2 s2 s2'
     \<and> (this_file \<notin> once s1 \<longrightarrow>
          (\<forall>t \<in> set (active_tokens (mid_macros p1 s1)). t \<notin> mid_macros p1 s1)
          \<and> (\<forall>t \<in> set (active_tokens (mid_macros p2 s2)). t \<notin> mid_macros p2 s2))"
proof (cases "this_file \<in> once s1")
  case True
  with once have "this_file \<in> once s2" by simp
  from own_decls_repeat[OF ok1 True] own_decls_repeat[OF ok2 this] True show ?thesis by simp
next
  case False
  with once have f2: "this_file \<notin> once s2" by simp
  have a: "own_decls p1 s1 s1' = own_decls p2 s2 s2'"
    unfolding own_decls_first[OF ok1 False] own_decls_first[OF ok2 f2]
    by (rule patch_decls_cong[OF lin ioc rig])
  note b = types_h_first_tokens[OF ok1 False]
  note c = types_h_first_tokens[OF ok2 f2]
  from a b c show ?thesis by (intro conjI impI)
qed

theorem own_output_depends_on_three_macros_witness:
  "\<not> isl (types_h posix_host mac_tu) \<and> \<not> isl (types_h bsd_host bsd_tu)
   \<and> this_file \<notin> once mac_tu \<and> this_file \<notin> once bsd_tu
   \<and> ''__linux__'' \<notin> mid_macros posix_host mac_tu \<and> ''__linux__'' \<notin> mid_macros bsd_host bsd_tu
   \<and> ''_CAP_IOCTL_T_DECLARED'' \<notin> mid_macros posix_host mac_tu
   \<and> ''_CAP_IOCTL_T_DECLARED'' \<notin> mid_macros bsd_host bsd_tu
   \<and> ''_CAP_RIGHTS_T_DECLARED'' \<notin> mid_macros posix_host mac_tu
   \<and> ''_CAP_RIGHTS_T_DECLARED'' \<notin> mid_macros bsd_host bsd_tu
   \<and> own_decls posix_host mac_tu (projr (types_h posix_host mac_tu))
       = own_decls bsd_host bsd_tu (projr (types_h bsd_host bsd_tu))
   \<and> own_decls bsd_host bsd_tu (projr (types_h bsd_host bsd_tu)) =
       [Typedef (Base CInt) ''__nl_item'',
        Typedef (Named ''size_t'') ''u_register_t'',
        Typedef (Base CULong) ''cap_ioctl_t'',
        StructFwd ''cap_rights'',
        Typedef (StructT ''cap_rights'') ''cap_rights_t'']
   \<and> ''__nl_item'' \<notin> mid_macros posix_host mac_tu
   \<and> ''__nl_item'' \<notin> mid_macros bsd_host bsd_tu"
proof -
  define a where "a = projr (types_h posix_host mac_tu)"
  define b where "b = projr (types_h bsd_host bsd_tu)"
  have oka: "\<not> isl (types_h posix_host mac_tu)" by (simp add: ex_defs sem_defs)
  then have ha: "types_h posix_host mac_tu = Inr a"
    unfolding a_def by (cases "types_h posix_host mac_tu") simp_all
  have okb: "\<not> isl (types_h bsd_host bsd_tu)" by (simp add: ex_defs sem_defs)
  then have hb: "types_h bsd_host bsd_tu = Inr b"
    unfolding b_def by (cases "types_h bsd_host bsd_tu") simp_all
  have fa: "this_file \<notin> once mac_tu" by (simp add: mac_tu_def)
  have fb: "this_file \<notin> once bsd_tu" by (simp add: bsd_tu_def)
  have ma: "mid_macros posix_host mac_tu = {''__APPLE__''}"
    by (simp add: mid_macros_def contents_def ex_defs)
  have mb: "mid_macros bsd_host bsd_tu = {''_SYS_TYPES_H_'', ''__FreeBSD__''}"
    by (simp add: mid_macros_def contents_def ex_defs)
  have la: "''__linux__'' \<notin> mid_macros posix_host mac_tu" unfolding ma by simp
  have lb: "''__linux__'' \<notin> mid_macros bsd_host bsd_tu" unfolding mb by simp
  have ia: "''_CAP_IOCTL_T_DECLARED'' \<notin> mid_macros posix_host mac_tu" unfolding ma by simp
  have ib: "''_CAP_IOCTL_T_DECLARED'' \<notin> mid_macros bsd_host bsd_tu" unfolding mb by simp
  have ra: "''_CAP_RIGHTS_T_DECLARED'' \<notin> mid_macros posix_host mac_tu" unfolding ma by simp
  have rb: "''_CAP_RIGHTS_T_DECLARED'' \<notin> mid_macros bsd_host bsd_tu" unfolding mb by simp
  have k: "own_decls posix_host mac_tu a = own_decls bsd_host bsd_tu b
     \<and> (this_file \<notin> once mac_tu \<longrightarrow>
          (\<forall>t \<in> set (active_tokens (mid_macros posix_host mac_tu)).
             t \<notin> mid_macros posix_host mac_tu)
          \<and> (\<forall>t \<in> set (active_tokens (mid_macros bsd_host bsd_tu)).
             t \<notin> mid_macros bsd_host bsd_tu))"
    by (rule own_output_depends_on_three_macros[OF ha hb]) (use fa fb la lb ia ib ra rb in blast)+
  have e: "own_decls posix_host mac_tu a = own_decls bsd_host bsd_tu b"
    by (rule conjunct1[OF k])
  have "(\<forall>t \<in> set (active_tokens (mid_macros posix_host mac_tu)).
             t \<notin> mid_macros posix_host mac_tu)
          \<and> (\<forall>t \<in> set (active_tokens (mid_macros bsd_host bsd_tu)).
             t \<notin> mid_macros bsd_host bsd_tu)"
    by (rule mp[OF conjunct2[OF k] fa])
  then have n: "''__nl_item'' \<notin> mid_macros posix_host mac_tu"
    "''__nl_item'' \<notin> mid_macros bsd_host bsd_tu"
    unfolding ma mb by (simp_all add: active_tokens_def)
  have o: "own_decls posix_host mac_tu a =
       [Typedef (Base CInt) ''__nl_item'',
        Typedef (Named ''size_t'') ''u_register_t'',
        Typedef (Base CULong) ''cap_ioctl_t'',
        StructFwd ''cap_rights'',
        Typedef (StructT ''cap_rights'') ''cap_rights_t'']"
    unfolding a_def by (simp add: ex_defs sem_defs own_decls_def contents_def decls_of_def)
  have o': "own_decls bsd_host bsd_tu b =
       [Typedef (Base CInt) ''__nl_item'',
        Typedef (Named ''size_t'') ''u_register_t'',
        Typedef (Base CULong) ''cap_ioctl_t'',
        StructFwd ''cap_rights'',
        Typedef (StructT ''cap_rights'') ''cap_rights_t'']"
    using e o by simp
  from oka okb fa fb la lb ia ib ra rb e o' n show ?thesis
    unfolding a_def b_def by (intro conjI)
qed

text \<open>
  The claim as written fails: the same host headers and the same translation unit, once
  with \<^verbatim>\<open>__linux__\<close> predefined and once without, give different output.
\<close>

theorem output_depends_on_context:
  "\<not> isl (types_h posix_host linux_tu) \<and> \<not> isl (types_h posix_host mac_tu)
   \<and> this_file \<notin> once linux_tu \<and> this_file \<notin> once mac_tu
   \<and> emitted linux_tu = emitted mac_tu
   \<and> emitted (projr (types_h posix_host linux_tu)) \<noteq> emitted (projr (types_h posix_host mac_tu))"
  by (simp add: ex_defs sem_defs)

text \<open>
  The four facts are all only where the lines are read as written. A translation unit that
  defines \<open>__nl_item\<close> as a macro agrees with the plain Linux one on all four, and the
  declaration the compiler then sees at line 14 is made from the macro's replacement
  text: the header's output depends on that macro as well.
\<close>

lemma rewriting_macro_is_a_further_input:
  "this_file \<notin> once linux_tu \<and> this_file \<notin> once nl_item_macro_tu
   \<and> ''__linux__'' \<in> mid_macros posix_host linux_tu
   \<and> ''__linux__'' \<in> mid_macros posix_host nl_item_macro_tu
   \<and> ''_CAP_IOCTL_T_DECLARED'' \<notin> mid_macros posix_host linux_tu
   \<and> ''_CAP_IOCTL_T_DECLARED'' \<notin> mid_macros posix_host nl_item_macro_tu
   \<and> ''_CAP_RIGHTS_T_DECLARED'' \<notin> mid_macros posix_host linux_tu
   \<and> ''_CAP_RIGHTS_T_DECLARED'' \<notin> mid_macros posix_host nl_item_macro_tu
   \<and> \<not> isl (types_h posix_host linux_tu)
   \<and> types_h posix_host nl_item_macro_tu = Inl (MacroRewrites ''__nl_item'')"
  by (simp add: ex_defs sem_defs mid_macros_def contents_def)

section \<open>The types of stdint.h\<close>

text \<open>
  C9. After a successful first inclusion every type that \<^verbatim>\<open>stdint.h\<close> declares is visible
  in the translation unit, whatever the platform's \<^verbatim>\<open>sys/types.h\<close> provides.
\<close>

theorem stdint_types_visible:
  assumes ok: "types_h p s = Inr s'" and first: "this_file \<notin> once s"
  shows "\<exists>std. stdint_h p = Some std \<and> typedef_names std \<subseteq> dom (typedefs s')"
proof -
  from types_h_first(1)[OF ok first] obtain std where std: "stdint_h p = Some std" by blast
  then have "contents (stdint_h p) = std" by (simp add: contents_def)
  with types_h_first(5)[OF ok first] have "typedef_names std \<subseteq> dom (typedefs s')" by blast
  with std show ?thesis by blast
qed

theorem stdint_types_visible_witness:
  "\<not> isl (types_h posix_host linux_tu) \<and> this_file \<notin> once linux_tu
   \<and> ''uint32_t'' \<notin> typedef_names posix_sys_types
   \<and> ''uintptr_t'' \<notin> typedef_names posix_sys_types
   \<and> typedefs (projr (types_h posix_host linux_tu)) ''uint32_t'' \<noteq> None
   \<and> typedefs (projr (types_h posix_host linux_tu)) ''uintptr_t'' \<noteq> None"
proof -
  define s' where "s' = projr (types_h posix_host linux_tu)"
  have ok: "\<not> isl (types_h posix_host linux_tu)"
    by (simp add: ex_defs sem_defs)
  then have h: "types_h posix_host linux_tu = Inr s'"
    unfolding s'_def by (cases "types_h posix_host linux_tu") simp_all
  have first: "this_file \<notin> once linux_tu"
    by (simp add: linux_tu_def)
  have n: "''uint32_t'' \<notin> typedef_names posix_sys_types" "''uintptr_t'' \<notin> typedef_names posix_sys_types"
    by (simp_all add: posix_sys_types_def)
  from stdint_types_visible[OF h first]
  have "typedef_names host_stdint \<subseteq> dom (typedefs s')"
    by (simp add: posix_host_def)
  then have "typedefs s' ''uint32_t'' \<noteq> None \<and> typedefs s' ''uintptr_t'' \<noteq> None"
    by (auto simp: host_stdint_def)
  with ok first n show ?thesis unfolding s'_def by blast
qed

section \<open>The capsicum guards\<close>

lemma mid_macros_mono: "macros s \<subseteq> mid_macros p s"
  by (auto simp: mid_macros_def)

lemma patch_decls_ioctl_guard:
  "''_CAP_IOCTL_T_DECLARED'' \<in> M \<Longrightarrow> count_decl ''cap_ioctl_t'' (patch_decls M) = 0"
  by (simp add: patch_decls_def count_decl_def)

lemma patch_decls_rights_guard:
  "''_CAP_RIGHTS_T_DECLARED'' \<in> M \<Longrightarrow>
     count_decl ''cap_rights_t'' (patch_decls M) = 0 \<and> StructFwd ''cap_rights'' \<notin> set (patch_decls M)"
  by (simp add: patch_decls_def count_decl_def)

lemma patch_decls_rights_open:
  "''_CAP_RIGHTS_T_DECLARED'' \<notin> M \<Longrightarrow>
     StructFwd ''cap_rights'' \<in> set (patch_decls M)
     \<and> Typedef (StructT ''cap_rights'') ''cap_rights_t'' \<in> set (patch_decls M)"
  by (simp add: patch_decls_def)

lemma patch_decls_no_struct_def: "StructDef g \<notin> set (patch_decls M)"
  by (simp add: patch_decls_def)

text \<open>
  C10, as the code has it. If \<^verbatim>\<open>_CAP_IOCTL_T_DECLARED\<close> (\<^verbatim>\<open>_CAP_RIGHTS_T_DECLARED\<close>) is
  defined before the inclusion, the header emits no declaration of \<open>cap_ioctl_t\<close>
  (\<open>cap_rights_t\<close>); after a successful first inclusion both macros are defined; and
  where the header declares \<open>cap_rights_t\<close> it is an alias of \<open>struct cap_rights\<close>, which
  the header only declares forward and never defines, so that the struct is incomplete
  unless someone else has declared it.
\<close>

theorem capsicum_guards:
  assumes ok: "types_h p s = Inr s'" and first: "this_file \<notin> once s"
  shows "(''_CAP_IOCTL_T_DECLARED'' \<in> macros s \<longrightarrow>
            count_decl ''cap_ioctl_t'' (own_decls p s s') = 0)
     \<and> (''_CAP_RIGHTS_T_DECLARED'' \<in> macros s \<longrightarrow>
            count_decl ''cap_rights_t'' (own_decls p s s') = 0
            \<and> StructFwd ''cap_rights'' \<notin> set (own_decls p s s'))
     \<and> ''_CAP_IOCTL_T_DECLARED'' \<in> macros s'
     \<and> ''_CAP_RIGHTS_T_DECLARED'' \<in> macros s'
     \<and> (''_CAP_RIGHTS_T_DECLARED'' \<notin> mid_macros p s \<longrightarrow>
            typedefs s' ''cap_rights_t'' = Some (StructT ''cap_rights'')
            \<and> StructFwd ''cap_rights'' \<in> set (own_decls p s s')
            \<and> Typedef (StructT ''cap_rights'') ''cap_rights_t'' \<in> set (own_decls p s s'))
     \<and> StructDef ''cap_rights'' \<notin> set (own_decls p s s')
     \<and> (''_CAP_RIGHTS_T_DECLARED'' \<notin> mid_macros p s
          \<and> ''cap_rights'' \<notin> dom (structs s) \<union> struct_tags (contents (sys_types_h p))
               \<union> struct_tags (contents (stdint_h p))
          \<longrightarrow> structs s' ''cap_rights'' = Some Incomplete)"
proof -
  let ?M = "mid_macros p s"
  note f = types_h_first[OF ok first]
  note o = own_decls_first[OF ok first]
  have c1: "''_CAP_IOCTL_T_DECLARED'' \<in> macros s \<longrightarrow>
            count_decl ''cap_ioctl_t'' (own_decls p s s') = 0"
    unfolding o using mid_macros_mono[of s p] patch_decls_ioctl_guard[of ?M] by blast
  have c2: "''_CAP_RIGHTS_T_DECLARED'' \<in> macros s \<longrightarrow>
            count_decl ''cap_rights_t'' (own_decls p s s') = 0
            \<and> StructFwd ''cap_rights'' \<notin> set (own_decls p s s')"
    unfolding o using mid_macros_mono[of s p] patch_decls_rights_guard[of ?M] by blast
  have c3: "''_CAP_IOCTL_T_DECLARED'' \<in> macros s'" unfolding f(2) by simp
  have c4: "''_CAP_RIGHTS_T_DECLARED'' \<in> macros s'" unfolding f(2) by simp
  have c5: "''_CAP_RIGHTS_T_DECLARED'' \<notin> ?M \<longrightarrow>
            typedefs s' ''cap_rights_t'' = Some (StructT ''cap_rights'')
            \<and> StructFwd ''cap_rights'' \<in> set (own_decls p s s')
            \<and> Typedef (StructT ''cap_rights'') ''cap_rights_t'' \<in> set (own_decls p s s')"
    unfolding o using f(10) patch_decls_rights_open[of ?M] by blast
  have c6: "StructDef ''cap_rights'' \<notin> set (own_decls p s s')"
    unfolding o by (rule patch_decls_no_struct_def)
  have c7: "''_CAP_RIGHTS_T_DECLARED'' \<notin> ?M
          \<and> ''cap_rights'' \<notin> dom (structs s) \<union> struct_tags (contents (sys_types_h p))
               \<union> struct_tags (contents (stdint_h p))
          \<longrightarrow> structs s' ''cap_rights'' = Some Incomplete"
    using f(11) by blast
  from c1 c2 c3 c4 c5 c6 c7 show ?thesis by blast
qed

theorem capsicum_guards_witness:
  "\<not> isl (types_h posix_host capsicum_tu) \<and> this_file \<notin> once capsicum_tu
   \<and> ''_CAP_IOCTL_T_DECLARED'' \<in> macros capsicum_tu
   \<and> ''_CAP_RIGHTS_T_DECLARED'' \<in> macros capsicum_tu
   \<and> count_decl ''cap_ioctl_t'' (own_decls posix_host capsicum_tu (projr (types_h posix_host capsicum_tu))) = 0
   \<and> count_decl ''cap_rights_t'' (own_decls posix_host capsicum_tu (projr (types_h posix_host capsicum_tu))) = 0
   \<and> \<not> isl (types_h posix_host linux_tu) \<and> this_file \<notin> once linux_tu
   \<and> ''_CAP_RIGHTS_T_DECLARED'' \<notin> mid_macros posix_host linux_tu
   \<and> ''cap_rights'' \<notin> dom (structs linux_tu) \<union> struct_tags (contents (sys_types_h posix_host))
               \<union> struct_tags (contents (stdint_h posix_host))
   \<and> ''_CAP_IOCTL_T_DECLARED'' \<in> macros (projr (types_h posix_host linux_tu))
   \<and> ''_CAP_RIGHTS_T_DECLARED'' \<in> macros (projr (types_h posix_host linux_tu))
   \<and> typedefs (projr (types_h posix_host linux_tu)) ''cap_rights_t'' = Some (StructT ''cap_rights'')
   \<and> structs (projr (types_h posix_host linux_tu)) ''cap_rights'' = Some Incomplete"
proof -
  define a where "a = projr (types_h posix_host capsicum_tu)"
  define b where "b = projr (types_h posix_host linux_tu)"
  have oka: "\<not> isl (types_h posix_host capsicum_tu)" by (simp add: ex_defs sem_defs)
  then have ha: "types_h posix_host capsicum_tu = Inr a"
    unfolding a_def by (cases "types_h posix_host capsicum_tu") simp_all
  have okb: "\<not> isl (types_h posix_host linux_tu)" by (simp add: ex_defs sem_defs)
  then have hb: "types_h posix_host linux_tu = Inr b"
    unfolding b_def by (cases "types_h posix_host linux_tu") simp_all
  have fa: "this_file \<notin> once capsicum_tu" by (simp add: capsicum_tu_def)
  have fb: "this_file \<notin> once linux_tu" by (simp add: linux_tu_def)
  have ga: "''_CAP_IOCTL_T_DECLARED'' \<in> macros capsicum_tu"
    "''_CAP_RIGHTS_T_DECLARED'' \<in> macros capsicum_tu"
    by (simp_all add: capsicum_tu_def)
  have gb: "''_CAP_RIGHTS_T_DECLARED'' \<notin> mid_macros posix_host linux_tu"
    by (simp add: mid_macros_def contents_def ex_defs)
  have nb: "''cap_rights'' \<notin> dom (structs linux_tu) \<union> struct_tags (contents (sys_types_h posix_host))
               \<union> struct_tags (contents (stdint_h posix_host))"
    by (simp add: contents_def ex_defs)
  from capsicum_guards[OF ha fa] ga
  have ra: "count_decl ''cap_ioctl_t'' (own_decls posix_host capsicum_tu a) = 0
     \<and> count_decl ''cap_rights_t'' (own_decls posix_host capsicum_tu a) = 0"
    by blast
  from capsicum_guards[OF hb fb] gb nb
  have rb: "''_CAP_IOCTL_T_DECLARED'' \<in> macros b \<and> ''_CAP_RIGHTS_T_DECLARED'' \<in> macros b
     \<and> typedefs b ''cap_rights_t'' = Some (StructT ''cap_rights'')
     \<and> structs b ''cap_rights'' = Some Incomplete"
    by blast
  from oka okb fa fb ga gb nb ra rb show ?thesis unfolding a_def b_def by blast
qed

text \<open>
  The claim as written says that the macros are defined after any inclusion. That holds
  of a first inclusion only: \<^verbatim>\<open>#pragma once\<close> makes every later inclusion skip the whole
  file, the two \<^verbatim>\<open>#define\<close> lines with it. In a translation unit that includes the header,
  then removes both guard macros with \<^verbatim>\<open>#undef\<close>, a further inclusion succeeds, changes
  nothing, and leaves both macros undefined.
\<close>

theorem guards_not_restored_by_repeated_inclusion:
  "\<not> isl (seq [ types_h posix_host,
                 undef_macro ''_CAP_IOCTL_T_DECLARED'',
                 undef_macro ''_CAP_RIGHTS_T_DECLARED'' ] linux_tu)
   \<and> this_file \<in> once undef_guards_tu
   \<and> \<not> isl (types_h posix_host undef_guards_tu)
   \<and> emitted (projr (types_h posix_host undef_guards_tu)) = emitted undef_guards_tu
   \<and> ''_CAP_IOCTL_T_DECLARED'' \<notin> macros (projr (types_h posix_host undef_guards_tu))
   \<and> ''_CAP_RIGHTS_T_DECLARED'' \<notin> macros (projr (types_h posix_host undef_guards_tu))"
  by (simp add: undef_guards_tu_def ex_defs sem_defs)


end
